theory Spec2Isabelle
  imports Main "HOL-Library.Word" "HOL-Library.Signed_Division"
begin

unbundle bit_operations_syntax

section \<open>NUX: the virtual machine (pkg/vm)\<close>

text \<open>
  Go's \<open>byte\<close> is an 8-bit word, \<open>int32\<close> and \<open>uint32\<close> are 32-bit words (a conversion
  between the two keeps the bits); \<open>int\<close> is taken to be 64 bits wide, so that lengths and
  \<open>int(x)\<close> of a 32-bit value are plain natural numbers or integers here.
  A Go string is a sequence of bytes: \<open>string\<close>.
\<close>

type_synonym byte = "8 word"
type_synonym int32 = "32 word"
type_synonym uint32 = "32 word"

subsection \<open>Constants (vm.go) and opcodes\<close>

definition MaxStackSize :: nat where "MaxStackSize = 8192"
definition MaxReturnStackSize :: nat where "MaxReturnStackSize = 1024"
definition ReservedMemorySize :: nat where "ReservedMemorySize = 4096"
definition ReservedMemoryOffset :: nat where "ReservedMemoryOffset = 0"
definition UserMemoryOffset :: nat where "UserMemoryOffset = ReservedMemorySize"

definition OpPush :: byte where "OpPush = 0x00"
definition OpPop :: byte where "OpPop = 0x01"
definition OpDup :: byte where "OpDup = 0x02"
definition OpSwap :: byte where "OpSwap = 0x03"
definition OpRoll :: byte where "OpRoll = 0x04"
definition OpRot :: byte where "OpRot = 0x05"
definition OpAdd :: byte where "OpAdd = 0x06"
definition OpSub :: byte where "OpSub = 0x07"
definition OpMul :: byte where "OpMul = 0x08"
definition OpDiv :: byte where "OpDiv = 0x09"
definition OpMod :: byte where "OpMod = 0x0A"
definition OpInc :: byte where "OpInc = 0x0B"
definition OpDec :: byte where "OpDec = 0x0C"
definition OpNeg :: byte where "OpNeg = 0x0D"
definition OpAnd :: byte where "OpAnd = 0x0E"
definition OpOr :: byte where "OpOr = 0x0F"
definition OpXor :: byte where "OpXor = 0x10"
definition OpNot :: byte where "OpNot = 0x11"
definition OpShl :: byte where "OpShl = 0x12"
definition OpEq :: byte where "OpEq = 0x13"
definition OpLt :: byte where "OpLt = 0x14"
definition OpGt :: byte where "OpGt = 0x15"
definition OpCallStack :: byte where "OpCallStack = 0x16"
definition OpJmp :: byte where "OpJmp = 0x17"
definition OpJz :: byte where "OpJz = 0x18"
definition OpJnz :: byte where "OpJnz = 0x19"
definition OpCall :: byte where "OpCall = 0x1A"
definition OpRet :: byte where "OpRet = 0x1B"
definition OpLoad :: byte where "OpLoad = 0x1C"
definition OpStore :: byte where "OpStore = 0x1D"
definition OpOut :: byte where "OpOut = 0x1E"
definition OpHalt :: byte where "OpHalt = 0x1F"

subsection \<open>Byte order and slices\<close>

text \<open>
  \<open>EncodeInt32\<close> (opcodes file) and \<open>binary.BigEndian.Uint32\<close>/\<open>PutUint32\<close>: four bytes,
  most significant first.
\<close>

definition EncodeInt32 :: "int32 \<Rightarrow> byte list" where
  "EncodeInt32 v = [ucast (drop_bit 24 v), ucast (drop_bit 16 v), ucast (drop_bit 8 v), ucast v]"

definition BigEndianUint32 :: "byte list \<Rightarrow> uint32" where
  "BigEndianUint32 b =
     (push_bit 24 (ucast (b ! 0)) OR push_bit 16 (ucast (b ! 1)) OR
      push_bit 8 (ucast (b ! 2)) OR ucast (b ! 3))"

text \<open>
  The slice expression \<open>s[lo:hi]\<close>. Go panics when \<open>lo > hi\<close> or \<open>hi > cap(s)\<close>; every
  sliced buffer of the program has its capacity equal to its length. \<open>None\<close> is the panic.
\<close>

definition slice :: "'a list \<Rightarrow> nat \<Rightarrow> nat \<Rightarrow> 'a list option" where
  "slice s lo hi = (if lo \<le> hi \<and> hi \<le> length s then Some (take (hi - lo) (drop lo s)) else None)"

text \<open>\<open>copy(s[at:at+4], bs)\<close> for four bytes \<open>bs\<close> inside the buffer.\<close>

definition put4 :: "byte list \<Rightarrow> nat \<Rightarrow> byte list \<Rightarrow> byte list" where
  "put4 s at bs = s[at := bs ! 0, at + 1 := bs ! 1, at + 2 := bs ! 2, at + 3 := bs ! 3]"

subsection \<open>Formatting done by the fmt package\<close>

text \<open>
  \<open>fmt.Printf("%d", v)\<close> writes the decimal digits of \<open>v\<close>, with a leading minus sign for a
  negative value and nothing else.
\<close>

fun decimal_nat :: "nat \<Rightarrow> string" where
  "decimal_nat n =
     (if n < 10 then [char_of (48 + n)]
      else decimal_nat (n div 10) @ [char_of (48 + n mod 10)])"

declare decimal_nat.simps [simp del]

definition FormatInt :: "int \<Rightarrow> string" where
  "FormatInt i = (if i < 0 then CHR ''-'' # decimal_nat (nat (- i)) else decimal_nat (nat i))"

text \<open>
  \<open>fmt.Printf("%c", v)\<close> for an \<open>int32\<close> writes the UTF-8 encoding of the code point
  \<open>v\<close> (\<open>utf8.AppendRune\<close>); a value that is negative, above U+10FFFF or a surrogate is
  written as U+FFFD.
\<close>

definition RuneError :: nat where "RuneError = 0xFFFD"

definition EncodeRune3 :: "nat \<Rightarrow> string" where
  "EncodeRune3 r =
     [char_of (0xE0 + r div 4096), char_of (0x80 + (r div 64) mod 64), char_of (0x80 + r mod 64)]"

definition EncodeRune :: "int \<Rightarrow> string" where
  "EncodeRune i =
     (if i < 0 \<or> i > 0x10FFFF then EncodeRune3 RuneError
      else let r = nat i in
        if r \<le> 0x7F then [char_of r]
        else if r \<le> 0x7FF then [char_of (0xC0 + r div 64), char_of (0x80 + r mod 64)]
        else if 0xD800 \<le> r \<and> r \<le> 0xDFFF then EncodeRune3 RuneError
        else if r \<le> 0xFFFF then EncodeRune3 r
        else [char_of (0xF0 + r div 262144), char_of (0x80 + (r div 4096) mod 64),
              char_of (0x80 + (r div 64) mod 64), char_of (0x80 + r mod 64)])"

subsection \<open>The machine state\<close>

text \<open>
  The struct \<open>VM\<close>. Both stacks are slices that grow by \<open>append\<close>: the top is the last
  element. The field \<open>trace\<close> only adds lines on standard error and is left out;
  \<open>stdout\<close> is added to record the bytes written to standard output so far.
\<close>

record VM =
  stack :: "int32 list"
  returnStack :: "int32 list"
  memory :: "byte list"
  pc :: uint32
  running :: bool
  reservedMemorySize :: uint32
  userMemoryStart :: uint32
  stdout :: string

text \<open>
  The errors of the package. \<open>Failed op e\<close> is \<open>fmt.Errorf("op failed: %v", e)\<close>;
  \<open>GoPanic\<close> is a run-time panic of a slice expression.
\<close>

datatype vm_error =
    StackOverflow
  | StackUnderflow
  | NeedValues nat string
  | DivisionByZero
  | ModulusByZero
  | InvalidCallAddress int32
  | ReturnStackOverflow
  | ReturnStackUnderflow
  | ImmediateOutOfBounds string
  | LoadAddressOutOfBounds uint32
  | StoreAddressOutOfBounds uint32
  | ProgramCounterOutOfBounds
  | NotEnoughBytesForOperand
  | AddressOutOfBounds int32
  | UnknownOpcode byte uint32
  | Failed string vm_error
  | ErrorAtPC uint32 vm_error
  | GoPanic

definition NewVM :: "byte list \<Rightarrow> VM" where
  "NewVM program =
     \<lparr> stack = [], returnStack = [],
       memory = replicate ReservedMemorySize 0 @ program,
       pc = of_nat UserMemoryOffset, running = True,
       reservedMemorySize = of_nat ReservedMemorySize,
       userMemoryStart = of_nat UserMemoryOffset,
       stdout = [] \<rparr>"

subsection \<open>The stack methods\<close>

definition Push :: "int32 \<Rightarrow> VM \<Rightarrow> vm_error option \<times> VM" where
  "Push v vm =
     (if length (stack vm) \<ge> MaxStackSize then (Some StackOverflow, vm)
      else (None, vm\<lparr>stack := stack vm @ [v]\<rparr>))"

definition Pop :: "VM \<Rightarrow> (int32 \<times> vm_error option) \<times> VM" where
  "Pop vm =
     (if length (stack vm) = 0 then ((0, Some StackUnderflow), vm)
      else ((last (stack vm), None), vm\<lparr>stack := butlast (stack vm)\<rparr>))"

text \<open>
  The recurring Go idiom \<open>x, err := vm.Pop(); if err != nil { return err }; ...\<close>.
\<close>

definition pop_then :: "VM \<Rightarrow> (int32 \<Rightarrow> VM \<Rightarrow> vm_error option \<times> VM) \<Rightarrow> vm_error option \<times> VM" where
  "pop_then vm k = (case Pop vm of ((x, Some e), vm') \<Rightarrow> (Some e, vm') | ((x, None), vm') \<Rightarrow> k x vm')"

definition Dup :: "VM \<Rightarrow> vm_error option \<times> VM" where
  "Dup vm =
     (if length (stack vm) < 1 then (Some (NeedValues 1 ''DUP''), vm)
      else Push (last (stack vm)) vm)"

definition Swap :: "VM \<Rightarrow> vm_error option \<times> VM" where
  "Swap vm =
     (if length (stack vm) < 2 then (Some (NeedValues 2 ''SWAP''), vm)
      else let n = length (stack vm); s = stack vm in
        (None, vm\<lparr>stack := s[n - 1 := s ! (n - 2), n - 2 := s ! (n - 1)]\<rparr>))"

definition Roll :: "VM \<Rightarrow> vm_error option \<times> VM" where
  "Roll vm =
     (if length (stack vm) < 2 then (Some (NeedValues 2 ''ROLL''), vm)
      else Push (stack vm ! (length (stack vm) - 2)) vm)"

definition Rot :: "VM \<Rightarrow> vm_error option \<times> VM" where
  "Rot vm =
     (if length (stack vm) < 3 then (Some (NeedValues 3 ''ROT''), vm)
      else let n = length (stack vm); s = stack vm in
        (None, vm\<lparr>stack := s[n - 3 := s ! (n - 2), n - 2 := s ! (n - 1), n - 1 := s ! (n - 3)]\<rparr>))"

subsection \<open>Arithmetic, bitwise and comparison methods\<close>

text \<open>
  Go's \<open>/\<close> and \<open>%\<close> on \<open>int32\<close> truncate towards zero (and wrap for the most negative
  value divided by \<open>-1\<close>).
\<close>

definition i32_quo :: "int32 \<Rightarrow> int32 \<Rightarrow> int32" where
  "i32_quo a b = word_of_int (sint a sdiv sint b)"

definition i32_rem :: "int32 \<Rightarrow> int32 \<Rightarrow> int32" where
  "i32_rem a b = word_of_int (sint a smod sint b)"

definition Add :: "VM \<Rightarrow> vm_error option \<times> VM" where
  "Add vm =
     (if length (stack vm) < 2 then (Some (NeedValues 2 ''ADD''), vm)
      else pop_then vm (\<lambda>b vm. pop_then vm (\<lambda>a vm. Push (a + b) vm)))"

definition Sub :: "VM \<Rightarrow> vm_error option \<times> VM" where
  "Sub vm =
     (if length (stack vm) < 2 then (Some (NeedValues 2 ''SUB''), vm)
      else pop_then vm (\<lambda>b vm. pop_then vm (\<lambda>a vm. Push (a - b) vm)))"

definition Mul :: "VM \<Rightarrow> vm_error option \<times> VM" where
  "Mul vm =
     (if length (stack vm) < 2 then (Some (NeedValues 2 ''MUL''), vm)
      else pop_then vm (\<lambda>b vm. pop_then vm (\<lambda>a vm. Push (a * b) vm)))"

definition Div :: "VM \<Rightarrow> vm_error option \<times> VM" where
  "Div vm =
     (if length (stack vm) < 2 then (Some (NeedValues 2 ''DIV''), vm)
      else pop_then vm (\<lambda>b vm.
        if b = 0 then (Some DivisionByZero, vm)
        else pop_then vm (\<lambda>a vm. Push (i32_quo a b) vm)))"

definition Mod :: "VM \<Rightarrow> vm_error option \<times> VM" where
  "Mod vm =
     (if length (stack vm) < 2 then (Some (NeedValues 2 ''MOD''), vm)
      else pop_then vm (\<lambda>b vm.
        if b = 0 then (Some ModulusByZero, vm)
        else pop_then vm (\<lambda>a vm. Push (i32_rem a b) vm)))"

definition Inc :: "VM \<Rightarrow> vm_error option \<times> VM" where
  "Inc vm =
     (if length (stack vm) < 1 then (Some (NeedValues 1 ''INC''), vm)
      else pop_then vm (\<lambda>v vm. Push (v + 1) vm))"

definition Dec :: "VM \<Rightarrow> vm_error option \<times> VM" where
  "Dec vm =
     (if length (stack vm) < 1 then (Some (NeedValues 1 ''DEC''), vm)
      else pop_then vm (\<lambda>v vm. Push (v - 1) vm))"

definition Neg :: "VM \<Rightarrow> vm_error option \<times> VM" where
  "Neg vm =
     (if length (stack vm) < 1 then (Some (NeedValues 1 ''NEG''), vm)
      else pop_then vm (\<lambda>v vm. Push (- v) vm))"

definition And :: "VM \<Rightarrow> vm_error option \<times> VM" where
  "And vm =
     (if length (stack vm) < 2 then (Some (NeedValues 2 ''AND''), vm)
      else pop_then vm (\<lambda>b vm. pop_then vm (\<lambda>a vm. Push (a AND b) vm)))"

definition Or :: "VM \<Rightarrow> vm_error option \<times> VM" where
  "Or vm =
     (if length (stack vm) < 2 then (Some (NeedValues 2 ''OR''), vm)
      else pop_then vm (\<lambda>b vm. pop_then vm (\<lambda>a vm. Push (a OR b) vm)))"

definition Xor :: "VM \<Rightarrow> vm_error option \<times> VM" where
  "Xor vm =
     (if length (stack vm) < 2 then (Some (NeedValues 2 ''XOR''), vm)
      else pop_then vm (\<lambda>b vm. pop_then vm (\<lambda>a vm. Push (a XOR b) vm)))"

definition Not_op :: "VM \<Rightarrow> vm_error option \<times> VM" where
  "Not_op vm =
     (if length (stack vm) < 1 then (Some (NeedValues 1 ''NOT''), vm)
      else pop_then vm (\<lambda>v vm. Push (NOT v) vm))"

text \<open>
  \<open>a << uint32(b % 32)\<close>: the remainder keeps the sign of \<open>b\<close>, the conversion to
  \<open>uint32\<close> keeps its bits, and a shift of an \<open>int32\<close> by 32 or more gives 0, as
  \<open>push_bit\<close> on a 32-bit word does.
\<close>

definition Shl :: "VM \<Rightarrow> vm_error option \<times> VM" where
  "Shl vm =
     (if length (stack vm) < 2 then (Some (NeedValues 2 ''SHL''), vm)
      else pop_then vm (\<lambda>b vm. pop_then vm (\<lambda>a vm.
        Push (push_bit (unat (i32_rem b 32)) a) vm)))"

definition Eq :: "VM \<Rightarrow> vm_error option \<times> VM" where
  "Eq vm =
     (if length (stack vm) < 2 then (Some (NeedValues 2 ''EQ''), vm)
      else pop_then vm (\<lambda>b vm. pop_then vm (\<lambda>a vm.
        if a = b then Push 1 vm else Push 0 vm)))"

definition Lt :: "VM \<Rightarrow> vm_error option \<times> VM" where
  "Lt vm =
     (if length (stack vm) < 2 then (Some (NeedValues 2 ''LT''), vm)
      else pop_then vm (\<lambda>b vm. pop_then vm (\<lambda>a vm.
        if sint a < sint b then Push 1 vm else Push 0 vm)))"

definition Gt :: "VM \<Rightarrow> vm_error option \<times> VM" where
  "Gt vm =
     (if length (stack vm) < 2 then (Some (NeedValues 2 ''GT''), vm)
      else pop_then vm (\<lambda>b vm. pop_then vm (\<lambda>a vm.
        if sint a > sint b then Push 1 vm else Push 0 vm)))"

subsection \<open>Control transfer as methods\<close>

text \<open>
  \<open>CallStack\<close> and \<open>Call\<close> as methods of the machine. The dispatch loop below does
  not call them: it has its own code for both opcodes.
\<close>

definition CallStack :: "VM \<Rightarrow> vm_error option \<times> VM" where
  "CallStack vm =
     (if length (stack vm) < 1 then (Some (NeedValues 1 ''CALLSTACK''), vm)
      else pop_then vm (\<lambda>addr vm.
        if sint addr < 0 \<or> sint addr \<ge> int (length (memory vm)) then (Some (InvalidCallAddress addr), vm)
        else if length (returnStack vm) \<ge> MaxStackSize then (Some ReturnStackOverflow, vm)
        else (None, vm\<lparr>returnStack := returnStack vm @ [pc vm], pc := addr\<rparr>)))"

definition Call :: "VM \<Rightarrow> vm_error option \<times> VM" where
  "Call vm =
     (if unat (pc vm + 4) > length (memory vm) then (Some (ImmediateOutOfBounds ''CALL''), vm)
      else if length (returnStack vm) \<ge> MaxStackSize then (Some ReturnStackOverflow, vm)
      else let vm1 = vm\<lparr>returnStack := returnStack vm @ [pc vm + 4]\<rparr> in
        (case slice (memory vm1) (unat (pc vm1)) (unat (pc vm1 + 4)) of
           None \<Rightarrow> (Some GoPanic, vm1)
         | Some b \<Rightarrow> (None, vm1\<lparr>pc := BigEndianUint32 b\<rparr>)))"

subsection \<open>Memory and output methods\<close>

definition Load :: "VM \<Rightarrow> vm_error option \<times> VM" where
  "Load vm =
     (if unat (pc vm + 4) > length (memory vm) then (Some (ImmediateOutOfBounds ''LOAD''), vm)
      else case slice (memory vm) (unat (pc vm)) (unat (pc vm + 4)) of
        None \<Rightarrow> (Some GoPanic, vm)
      | Some b \<Rightarrow>
          let address = BigEndianUint32 b in
          if unat address + 4 > length (memory vm) then (Some (LoadAddressOutOfBounds address), vm)
          else (case slice (memory vm) (unat address) (unat (address + 4)) of
             None \<Rightarrow> (Some GoPanic, vm)
           | Some d \<Rightarrow> Push (BigEndianUint32 d) (vm\<lparr>pc := pc vm + 4\<rparr>)))"

definition Store :: "VM \<Rightarrow> vm_error option \<times> VM" where
  "Store vm =
     (if length (stack vm) < 1 then (Some (NeedValues 1 ''STORE''), vm)
      else pop_then vm (\<lambda>v vm.
        if unat (pc vm + 4) > length (memory vm) then (Some (ImmediateOutOfBounds ''STORE''), vm)
        else case slice (memory vm) (unat (pc vm)) (unat (pc vm + 4)) of
          None \<Rightarrow> (Some GoPanic, vm)
        | Some b \<Rightarrow>
            let address = BigEndianUint32 b in
            if unat address + 4 > length (memory vm) then (Some (StoreAddressOutOfBounds address), vm)
            else (case slice (memory vm) (unat address) (unat (address + 4)) of
               None \<Rightarrow> (Some GoPanic, vm)
             | Some d \<Rightarrow>
                 (None, vm\<lparr>memory := put4 (memory vm) (unat address) (EncodeInt32 v),
                            pc := pc vm + 4\<rparr>))))"

text \<open>
  \<open>Out\<close> drops the error of its first \<open>Pop\<close> (\<open>format, _ := vm.Pop()\<close>) and prints with
  \<open>%c\<close> when the format is 1, with \<open>%d\<close> for every other format.
\<close>

definition Out :: "VM \<Rightarrow> vm_error option \<times> VM" where
  "Out vm =
     (if length (stack vm) < 2 then (Some (NeedValues 2 ''OUT''), vm)
      else case Pop vm of ((format, _), vm1) \<Rightarrow>
        pop_then vm1 (\<lambda>v vm.
          if format = 1 then (None, vm\<lparr>stdout := stdout vm @ EncodeRune (sint v)\<rparr>)
          else (None, vm\<lparr>stdout := stdout vm @ FormatInt (sint v)\<rparr>)))"

definition Halt :: "VM \<Rightarrow> vm_error option \<times> VM" where
  "Halt vm = (None, vm\<lparr>running := False\<rparr>)"

subsection \<open>The dispatch loop\<close>

definition wrap :: "string \<Rightarrow> vm_error option \<times> VM \<Rightarrow> vm_error option \<times> VM" where
  "wrap name r = (case r of (Some e, vm) \<Rightarrow> (Some (Failed name e), vm) | (None, vm) \<Rightarrow> (None, vm))"

text \<open>
  The immediate operand of a five-byte instruction, read at the program counter (which is
  already past the opcode): \<open>binary.BigEndian.Uint32(vm.memory[vm.pc : vm.pc+4])\<close>.
\<close>

definition operand :: "VM \<Rightarrow> uint32 option" where
  "operand vm = map_option BigEndianUint32 (slice (memory vm) (unat (pc vm)) (unat (pc vm + 4)))"

text \<open>
  The cases of the \<open>switch\<close> in \<open>ExecuteInstruction\<close> that are written out in place
  (\<open>PUSH\<close>, \<open>POP\<close>, \<open>CALLSTACK\<close>, the jumps, \<open>CALL\<close>, \<open>RET\<close> and \<open>HALT\<close>); the
  program counter is already past the opcode. The other cases call the methods above.
\<close>

definition case_Push :: "VM \<Rightarrow> vm_error option \<times> VM" where
  "case_Push vm =
     (if unat (pc vm + 3) \<ge> length (memory vm) then (Some (Failed ''push'' NotEnoughBytesForOperand), vm)
      else case operand vm of None \<Rightarrow> (Some GoPanic, vm)
        | Some v \<Rightarrow> (None, vm\<lparr>stack := stack vm @ [v], pc := pc vm + 4\<rparr>))"

definition case_Pop :: "VM \<Rightarrow> vm_error option \<times> VM" where
  "case_Pop vm =
     (case Pop vm of ((_, Some e), vm') \<Rightarrow> (Some (Failed ''pop'' e), vm') | ((_, None), vm') \<Rightarrow> (None, vm'))"

definition case_CallStack :: "VM \<Rightarrow> vm_error option \<times> VM" where
  "case_CallStack vm =
     (if length (stack vm) < 1 then (Some (Failed ''callstack'' StackUnderflow), vm)
      else if length (returnStack vm) \<ge> MaxStackSize then (Some (Failed ''call'' ReturnStackOverflow), vm)
      else case Pop vm of
          ((_, Some e), vm') \<Rightarrow> (Some (Failed ''callstack'' e), vm')
        | ((addr, None), vm') \<Rightarrow>
            if sint addr \<ge> int (length (memory vm')) \<or> sint addr < int (unat (userMemoryStart vm'))
            then (Some (Failed ''callstack'' (AddressOutOfBounds addr)), vm')
            else (None, vm'\<lparr>returnStack := returnStack vm' @ [pc vm'], pc := addr\<rparr>))"

definition case_Jmp :: "VM \<Rightarrow> vm_error option \<times> VM" where
  "case_Jmp vm =
     (if unat (pc vm + 3) \<ge> length (memory vm) then (Some (Failed ''jmp'' NotEnoughBytesForOperand), vm)
      else case operand vm of None \<Rightarrow> (Some GoPanic, vm)
        | Some addr \<Rightarrow> (None, vm\<lparr>pc := addr\<rparr>))"

definition case_Jz :: "VM \<Rightarrow> vm_error option \<times> VM" where
  "case_Jz vm =
     (if unat (pc vm + 3) \<ge> length (memory vm) then (Some (Failed ''jz'' NotEnoughBytesForOperand), vm)
      else case operand vm of None \<Rightarrow> (Some GoPanic, vm)
        | Some addr \<Rightarrow>
            if length (stack vm) < 1 then (Some (Failed ''jz'' StackUnderflow), vm)
            else let cond = last (stack vm); vm1 = vm\<lparr>stack := butlast (stack vm)\<rparr> in
              if cond = 0 then (None, vm1\<lparr>pc := addr\<rparr>) else (None, vm1\<lparr>pc := pc vm1 + 4\<rparr>))"

definition case_Jnz :: "VM \<Rightarrow> vm_error option \<times> VM" where
  "case_Jnz vm =
     (if unat (pc vm + 3) \<ge> length (memory vm) then (Some (Failed ''jnz'' NotEnoughBytesForOperand), vm)
      else case operand vm of None \<Rightarrow> (Some GoPanic, vm)
        | Some addr \<Rightarrow>
            if length (stack vm) < 1 then (Some (Failed ''jnz'' StackUnderflow), vm)
            else let cond = last (stack vm); vm1 = vm\<lparr>stack := butlast (stack vm)\<rparr> in
              if cond \<noteq> 0 then (None, vm1\<lparr>pc := addr\<rparr>) else (None, vm1\<lparr>pc := pc vm1 + 4\<rparr>))"

definition case_Call :: "VM \<Rightarrow> vm_error option \<times> VM" where
  "case_Call vm =
     (if unat (pc vm + 3) \<ge> length (memory vm) then (Some (Failed ''call'' NotEnoughBytesForOperand), vm)
      else case operand vm of None \<Rightarrow> (Some GoPanic, vm)
        | Some addr \<Rightarrow> (None, vm\<lparr>returnStack := returnStack vm @ [pc vm + 4], pc := addr\<rparr>))"

definition case_Ret :: "VM \<Rightarrow> vm_error option \<times> VM" where
  "case_Ret vm =
     (if length (returnStack vm) = 0 then (Some (Failed ''ret'' ReturnStackUnderflow), vm)
      else (None, vm\<lparr>pc := last (returnStack vm), returnStack := butlast (returnStack vm)\<rparr>))"

definition case_Halt :: "VM \<Rightarrow> vm_error option \<times> VM" where
  "case_Halt vm = (None, vm\<lparr>running := False\<rparr>)"

text \<open>
  \<open>ExecuteInstruction\<close>. Its first result, the address of the instruction, is used by no
  caller and is left out; the error and the machine as the call leaves it are returned.
\<close>

definition exec_op :: "byte \<Rightarrow> uint32 \<Rightarrow> VM \<Rightarrow> vm_error option \<times> VM" where
  "exec_op opcode currentPC vm =
    (if opcode = OpPush then case_Push vm
     else if opcode = OpPop then case_Pop vm
     else if opcode = OpDup then wrap ''dup'' (Dup vm)
     else if opcode = OpSwap then wrap ''swap'' (Swap vm)
     else if opcode = OpRoll then wrap ''roll'' (Roll vm)
     else if opcode = OpRot then wrap ''rot'' (Rot vm)
     else if opcode = OpAdd then wrap ''add'' (Add vm)
     else if opcode = OpSub then wrap ''sub'' (Sub vm)
     else if opcode = OpMul then wrap ''mul'' (Mul vm)
     else if opcode = OpDiv then wrap ''div'' (Div vm)
     else if opcode = OpMod then wrap ''mod'' (Mod vm)
     else if opcode = OpInc then wrap ''inc'' (Inc vm)
     else if opcode = OpDec then wrap ''dec'' (Dec vm)
     else if opcode = OpNeg then wrap ''neg'' (Neg vm)
     else if opcode = OpAnd then wrap ''and'' (And vm)
     else if opcode = OpOr then wrap ''or'' (Or vm)
     else if opcode = OpXor then wrap ''xor'' (Xor vm)
     else if opcode = OpNot then wrap ''not'' (Not_op vm)
     else if opcode = OpShl then wrap ''shl'' (Shl vm)
     else if opcode = OpEq then wrap ''eq'' (Eq vm)
     else if opcode = OpLt then wrap ''lt'' (Lt vm)
     else if opcode = OpGt then wrap ''gt'' (Gt vm)
     else if opcode = OpCallStack then case_CallStack vm
     else if opcode = OpJmp then case_Jmp vm
     else if opcode = OpJz then case_Jz vm
     else if opcode = OpJnz then case_Jnz vm
     else if opcode = OpCall then case_Call vm
     else if opcode = OpRet then case_Ret vm
     else if opcode = OpLoad then wrap ''load'' (Load vm)
     else if opcode = OpStore then wrap ''store'' (Store vm)
     else if opcode = OpOut then wrap ''out'' (Out vm)
     else if opcode = OpHalt then case_Halt vm
     else (Some (UnknownOpcode opcode currentPC), vm))"

definition ExecuteInstruction :: "VM \<Rightarrow> vm_error option \<times> VM" where
  "ExecuteInstruction vm =
     (let currentPC = pc vm in
      if unat (pc vm) \<ge> length (memory vm) then (Some ProgramCounterOutOfBounds, vm)
      else exec_op (memory vm ! unat (pc vm)) currentPC (vm\<lparr>pc := pc vm + 1\<rparr>))"

text \<open>
  \<open>Run\<close> loops while the machine is running and the program counter is inside the memory.
  The loop need not end, so the model counts the instructions it may still execute:
  \<open>None\<close> means that the fuel ran out before the loop was left. An error is returned as
  \<open>fmt.Errorf("error at PC=%d: %v", vm.pc, err)\<close>.
\<close>

fun Run :: "nat \<Rightarrow> VM \<Rightarrow> (vm_error option \<times> VM) option" where
  "Run fuel vm =
     (if running vm \<and> unat (pc vm) < length (memory vm) then
        (case fuel of
           0 \<Rightarrow> None
         | Suc n \<Rightarrow>
            (case ExecuteInstruction vm of
               (Some e, vm') \<Rightarrow> Some (Some (ErrorAtPC (pc vm') e), vm')
             | (None, vm') \<Rightarrow> Run n vm'))
      else Some (None, vm))"

declare Run.simps [simp del]

definition Step :: "VM \<Rightarrow> (bool \<times> vm_error option) \<times> VM" where
  "Step vm =
     (if \<not> running vm \<or> unat (pc vm) \<ge> length (memory vm) then ((False, None), vm)
      else case ExecuteInstruction vm of
          (Some e, vm') \<Rightarrow> ((False, Some e), vm')
        | (None, vm') \<Rightarrow> ((running vm' \<and> unat (pc vm') < length (memory vm'), None), vm'))"

section \<open>LUX: the lexer (pkg/lux/lexer.go)\<close>

datatype TokenType =
    TokenNumber | TokenWord | TokenAtSign | TokenSemicolon | TokenComment
  | TokenString | TokenLBracket | TokenRBracket | TokenEOF

record Token =
  Type :: TokenType
  Value :: string
  Line :: nat
  Column :: nat

record Lexer =
  input :: string
  pos :: nat
  line :: nat
  column :: nat

datatype lex_error =
    UnexpectedEndOfString nat
  | UnclosedString nat nat
  | UnclosedComment nat nat
  | EmptyWord nat nat

definition NewLexer :: "string \<Rightarrow> Lexer" where
  "NewLexer inp = \<lparr>input = inp, pos = 0, line = 1, column = 1\<rparr>"

subsection \<open>Character classes\<close>

text \<open>
  The lexer applies \<open>unicode.IsSpace\<close>, \<open>unicode.IsDigit\<close> and \<open>unicode.IsLetter\<close> to
  \<open>rune(ch)\<close> for a byte \<open>ch\<close>, that is to a code point below 256. There the space
  characters are tab, line feed, vertical tab, form feed, carriage return, space, U+0085
  and U+00A0; the digits are \<open>0\<close> to \<open>9\<close>; the letters are the ASCII letters, U+00AA,
  U+00B5, U+00BA and U+00C0 to U+00FF without U+00D7 and U+00F7.
\<close>

definition IsSpace :: "char \<Rightarrow> bool" where
  "IsSpace c = (let n = (of_char c :: nat) in (9 \<le> n \<and> n \<le> 13) \<or> n = 32 \<or> n = 0x85 \<or> n = 0xA0)"

definition IsDigit :: "char \<Rightarrow> bool" where
  "IsDigit c = (let n = (of_char c :: nat) in 48 \<le> n \<and> n \<le> 57)"

definition IsLetter :: "char \<Rightarrow> bool" where
  "IsLetter c =
     (let n = (of_char c :: nat) in
        (65 \<le> n \<and> n \<le> 90) \<or> (97 \<le> n \<and> n \<le> 122) \<or> n = 0xAA \<or> n = 0xB5 \<or> n = 0xBA \<or>
        (0xC0 \<le> n \<and> n \<le> 0xD6) \<or> (0xD8 \<le> n \<and> n \<le> 0xF6) \<or> 0xF8 \<le> n)"

definition isHexDigit :: "char \<Rightarrow> bool" where
  "isHexDigit ch =
     (let n = (of_char ch :: nat) in IsDigit ch \<or> (97 \<le> n \<and> n \<le> 102) \<or> (65 \<le> n \<and> n \<le> 70))"

subsection \<open>Reading characters\<close>

definition peek :: "Lexer \<Rightarrow> char" where
  "peek l = (if pos l \<ge> length (input l) then CHR 0x00 else input l ! pos l)"

definition advance :: "Lexer \<Rightarrow> char \<times> Lexer" where
  "advance l =
     (if pos l \<ge> length (input l) then (CHR 0x00, l)
      else let ch = input l ! pos l in
        if ch = CHR 0x0A then (ch, l\<lparr>pos := pos l + 1, line := line l + 1, column := 1\<rparr>)
        else (ch, l\<lparr>pos := pos l + 1, column := column l + 1\<rparr>))"

function skipWhitespace :: "Lexer \<Rightarrow> Lexer" where
  "skipWhitespace l =
     (if pos l < length (input l) \<and> IsSpace (peek l) then skipWhitespace (snd (advance l)) else l)"
  by pat_completeness auto
termination
  by (relation "measure (\<lambda>l. length (input l) - pos l)") (auto simp: advance_def Let_def)

declare skipWhitespace.simps [simp del]

subsection \<open>String literals\<close>

text \<open>
  The loop of \<open>readString\<close>, after the opening quote; \<open>str\<close> is the content of the
  \<open>strings.Builder\<close>.
\<close>

function readString_loop :: "nat \<Rightarrow> nat \<Rightarrow> Lexer \<Rightarrow> string \<Rightarrow> lex_error + Token \<times> Lexer" where
  "readString_loop startLine startCol l str =
     (if pos l < length (input l) then
        let ch = peek l in
        if ch = CHR 0x22 then
          Inr (\<lparr>Type = TokenString, Value = str, Line = startLine, Column = startCol\<rparr>, snd (advance l))
        else if ch = CHR 0x5C then
          let l1 = snd (advance l) in
          if pos l1 \<ge> length (input l1) then Inl (UnexpectedEndOfString startLine)
          else
            let next = fst (advance l1); l2 = snd (advance l1) in
            readString_loop startLine startCol l2
              (str @ [if next = CHR ''n'' then CHR 0x0A
                      else if next = CHR ''t'' then CHR 0x09
                      else if next = CHR 0x5C then CHR 0x5C
                      else if next = CHR 0x22 then CHR 0x22
                      else next])
        else readString_loop startLine startCol (snd (advance l)) (str @ [fst (advance l)])
      else Inl (UnclosedString startLine startCol))"
  by pat_completeness auto
termination
  by (relation "measure (\<lambda>(a, b, l, s). length (input l) - pos l)")
     (auto simp: advance_def Let_def)

declare readString_loop.simps [simp del]

definition readString :: "Lexer \<Rightarrow> lex_error + Token \<times> Lexer" where
  "readString l =
     (let startLine = line l; startCol = column l; l1 = snd (advance l) in
      readString_loop startLine startCol l1 [])"

definition readSingleChar :: "TokenType \<Rightarrow> Lexer \<Rightarrow> Token \<times> Lexer" where
  "readSingleChar tokenType l =
     (\<lparr>Type = tokenType, Value = [peek l], Line = line l, Column = column l\<rparr>, snd (advance l))"

subsection \<open>Comments\<close>

text \<open>
  The loop of \<open>readComment\<close>, after the opening parenthesis. It returns the lexer, the
  depth at which the loop was left and the text of the comment.
\<close>

function readComment_loop :: "Lexer \<Rightarrow> nat \<Rightarrow> string \<Rightarrow> Lexer \<times> nat \<times> string" where
  "readComment_loop l depth comment =
     (if pos l < length (input l) \<and> depth > 0 then
        let ch = peek l in
        if ch = CHR 0x28 then
          readComment_loop (snd (advance l)) (depth + 1) (comment @ [fst (advance l)])
        else if ch = CHR 0x29 then
          (if depth - 1 = 0 then (snd (advance l), depth - 1, comment)
           else readComment_loop (snd (advance l)) (depth - 1) (comment @ [fst (advance l)]))
        else readComment_loop (snd (advance l)) depth (comment @ [fst (advance l)])
      else (l, depth, comment))"
  by pat_completeness auto
termination
  by (relation "measure (\<lambda>(l, d, c). length (input l) - pos l)")
     (auto simp: advance_def Let_def)

declare readComment_loop.simps [simp del]

definition readComment :: "Lexer \<Rightarrow> lex_error + Token \<times> Lexer" where
  "readComment l =
     (let startLine = line l; startCol = column l; l1 = snd (advance l) in
      case readComment_loop l1 1 [] of (l2, depth, comment) \<Rightarrow>
        if depth > 0 then Inl (UnclosedComment startLine startCol)
        else Inr (\<lparr>Type = TokenComment, Value = comment, Line = startLine, Column = startCol\<rparr>, l2))"

function readLineComment_loop :: "Lexer \<Rightarrow> string \<Rightarrow> Lexer \<times> string" where
  "readLineComment_loop l comment =
     (if pos l < length (input l) \<and> peek l \<noteq> CHR 0x0A then
        readLineComment_loop (snd (advance l)) (comment @ [fst (advance l)])
      else (l, comment))"
  by pat_completeness auto
termination
  by (relation "measure (\<lambda>(l, c). length (input l) - pos l)")
     (auto simp: advance_def Let_def)

declare readLineComment_loop.simps [simp del]

definition readLineComment :: "Lexer \<Rightarrow> lex_error + Token \<times> Lexer" where
  "readLineComment l =
     (let startLine = line l; startCol = column l;
          l1 = snd (advance l); l2 = snd (advance l1) in
      case readLineComment_loop l2 [] of (l3, comment) \<Rightarrow>
        Inr (\<lparr>Type = TokenComment, Value = comment, Line = startLine, Column = startCol\<rparr>, l3))"

subsection \<open>Numbers\<close>

function readHex_loop :: "Lexer \<Rightarrow> string \<Rightarrow> Lexer \<times> string" where
  "readHex_loop l num =
     (if pos l < length (input l) \<and> isHexDigit (peek l) then
        readHex_loop (snd (advance l)) (num @ [fst (advance l)])
      else (l, num))"
  by pat_completeness auto
termination
  by (relation "measure (\<lambda>(l, c). length (input l) - pos l)")
     (auto simp: advance_def Let_def)

declare readHex_loop.simps [simp del]

function readDigits_loop :: "Lexer \<Rightarrow> string \<Rightarrow> Lexer \<times> string" where
  "readDigits_loop l num =
     (if pos l < length (input l) \<and> IsDigit (peek l) then
        readDigits_loop (snd (advance l)) (num @ [fst (advance l)])
      else (l, num))"
  by pat_completeness auto
termination
  by (relation "measure (\<lambda>(l, c). length (input l) - pos l)")
     (auto simp: advance_def Let_def)

declare readDigits_loop.simps [simp del]

definition readNumber :: "Lexer \<Rightarrow> Token \<times> Lexer" where
  "readNumber l =
     (let startLine = line l; startCol = column l;
          (num1, l1) = (if peek l = CHR ''-'' then ([fst (advance l)], snd (advance l)) else ([], l))
      in
        if peek l1 = CHR ''0'' \<and> pos l1 + 1 < length (input l1) \<and>
           (input l1 ! (pos l1 + 1) = CHR ''x'' \<or> input l1 ! (pos l1 + 1) = CHR ''X'')
        then
          let l2 = snd (advance l1); l3 = snd (advance l2);
              num3 = num1 @ [fst (advance l1)] @ [fst (advance l2)] in
          case readHex_loop l3 num3 of (l4, num) \<Rightarrow>
            (\<lparr>Type = TokenNumber, Value = num, Line = startLine, Column = startCol\<rparr>, l4)
        else
          case readDigits_loop l1 num1 of (l4, num) \<Rightarrow>
            (\<lparr>Type = TokenNumber, Value = num, Line = startLine, Column = startCol\<rparr>, l4))"

definition isNumberStart :: "Lexer \<Rightarrow> char \<Rightarrow> bool" where
  "isNumberStart l ch =
     (if IsDigit ch then True
      else if ch = CHR ''-'' \<and> pos l + 1 < length (input l) \<and> IsDigit (input l ! (pos l + 1)) then True
      else False)"

subsection \<open>Words\<close>

text \<open>
  The loop of \<open>readWord\<close>. The test that admits a single colon compares the byte offset
  \<open>l.pos\<close> with the column \<open>startCol\<close>, as the source does.
\<close>

definition word_stop :: "char \<Rightarrow> bool" where
  "word_stop ch =
     (IsSpace ch \<or> ch = CHR 0x28 \<or> ch = CHR 0x29 \<or> ch = CHR '';'' \<or> ch = CHR ''@'' \<or>
      ch = CHR 0x22 \<or> ch = CHR ''['' \<or> ch = CHR '']'')"

definition word_char :: "char \<Rightarrow> bool" where
  "word_char ch =
     (IsLetter ch \<or> IsDigit ch \<or> ch = CHR ''_'' \<or>
      ch = CHR ''+'' \<or> ch = CHR ''-'' \<or> ch = CHR ''*'' \<or> ch = CHR ''/'' \<or> ch = CHR ''%'' \<or>
      ch = CHR ''&'' \<or> ch = CHR ''|'' \<or> ch = CHR ''^'' \<or> ch = CHR ''!'' \<or> ch = CHR ''?'' \<or>
      ch = CHR ''>'' \<or> ch = CHR ''<'' \<or> ch = CHR ''.'' \<or> ch = CHR ''='')"

function readWord_loop :: "nat \<Rightarrow> Lexer \<Rightarrow> string \<Rightarrow> Lexer \<times> string" where
  "readWord_loop startCol l word =
     (if pos l < length (input l) then
        let ch = peek l in
        if word_stop ch then (l, word)
        else if ch = CHR '':'' \<and> pos l > startCol then
          readWord_loop startCol (snd (advance l)) (word @ [fst (advance l)])
        else if ch = CHR '':'' \<and> pos l + 1 < length (input l) \<and> input l ! (pos l + 1) = CHR '':'' then
          let l1 = snd (advance l) in
          readWord_loop startCol (snd (advance l1)) (word @ [fst (advance l)] @ [fst (advance l1)])
        else if word_char ch then
          readWord_loop startCol (snd (advance l)) (word @ [fst (advance l)])
        else (l, word)
      else (l, word))"
  by pat_completeness auto
termination
  by (relation "measure (\<lambda>(c, l, w). length (input l) - pos l)")
     (auto simp: advance_def Let_def)

declare readWord_loop.simps [simp del]

definition readWord :: "Lexer \<Rightarrow> lex_error + Token \<times> Lexer" where
  "readWord l =
     (let startLine = line l; startCol = column l in
      case readWord_loop startCol l [] of (l1, v) \<Rightarrow>
        if v = [] then Inl (EmptyWord startLine startCol)
        else Inr (\<lparr>Type = TokenWord, Value = v, Line = startLine, Column = startCol\<rparr>, l1))"

subsection \<open>Tokens\<close>

definition combinator_at :: "Lexer \<Rightarrow> char \<Rightarrow> bool" where
  "combinator_at l c = (peek l = c \<and> pos l + 1 < length (input l) \<and> input l ! (pos l + 1) = CHR '':'')"

definition NextToken :: "Lexer \<Rightarrow> lex_error + Token \<times> Lexer" where
  "NextToken l0 =
     (let l = skipWhitespace l0 in
      if pos l \<ge> length (input l) then
        Inr (\<lparr>Type = TokenEOF, Value = [], Line = line l, Column = column l\<rparr>, l)
      else
        let ch = peek l in
        if ch = CHR 0x28 then readComment l
        else if ch = CHR ''/'' \<and> pos l + 1 < length (input l) \<and> input l ! (pos l + 1) = CHR ''/''
          then readLineComment l
        else if ch = CHR 0x22 then readString l
        else if ch = CHR ''@'' then Inr (readSingleChar TokenAtSign l)
        else if ch = CHR '';'' then Inr (readSingleChar TokenSemicolon l)
        else if ch = CHR ''['' then Inr (readSingleChar TokenLBracket l)
        else if ch = CHR '']'' then Inr (readSingleChar TokenRBracket l)
        else if isNumberStart l ch then Inr (readNumber l)
        else if combinator_at l (CHR ''?'') then
          Inr (\<lparr>Type = TokenWord, Value = ''?:'', Line = line l, Column = column l\<rparr>,
               l\<lparr>pos := pos l + 2, column := column l + 2\<rparr>)
        else if combinator_at l (CHR ''!'') then
          Inr (\<lparr>Type = TokenWord, Value = ''!:'', Line = line l, Column = column l\<rparr>,
               l\<lparr>pos := pos l + 2, column := column l + 2\<rparr>)
        else if combinator_at l (CHR ''|'') then
          Inr (\<lparr>Type = TokenWord, Value = ''|:'', Line = line l, Column = column l\<rparr>,
               l\<lparr>pos := pos l + 2, column := column l + 2\<rparr>)
        else if combinator_at l (CHR ''#'') then
          Inr (\<lparr>Type = TokenWord, Value = ''#:'', Line = line l, Column = column l\<rparr>,
               l\<lparr>pos := pos l + 2, column := column l + 2\<rparr>)
        else readWord l)"

subsection \<open>Every token moves the lexer forward\<close>

text \<open>
  \<open>adv l l'\<close>: the lexer \<open>l'\<close> reads the input of \<open>l\<close> and its position is not before
  that of \<open>l\<close>; \<open>sadv\<close> when it is strictly after. These facts give the termination of
  \<open>Tokenize\<close>.
\<close>

definition adv :: "Lexer \<Rightarrow> Lexer \<Rightarrow> bool" where
  "adv l l' = (input l' = input l \<and> pos l \<le> pos l')"

lemma adv_refl: "adv l l" by (simp add: adv_def)

lemma adv_trans: "adv a b \<Longrightarrow> adv b c \<Longrightarrow> adv a c" by (auto simp: adv_def)

lemma adv_advance: "adv l (snd (advance l))"
  by (simp add: adv_def advance_def Let_def)

lemma advance_input: "input (snd (advance l)) = input l"
  by (simp add: advance_def Let_def)

lemma advance_pos: "pos l < length (input l) \<Longrightarrow> pos (snd (advance l)) = pos l + 1"
  by (simp add: advance_def Let_def)

lemma adv_skipWhitespace: "adv l (skipWhitespace l)"
proof (induction l rule: skipWhitespace.induct)
  case (1 l)
  show ?case
  proof (cases "pos l < length (input l) \<and> IsSpace (peek l)")
    case True
    with 1 have "adv (snd (advance l)) (skipWhitespace (snd (advance l)))" by simp
    with adv_advance [of l] have "adv l (skipWhitespace (snd (advance l)))" by (rule adv_trans)
    with True show ?thesis by (subst skipWhitespace.simps) simp
  next
    case False
    then show ?thesis by (subst skipWhitespace.simps) (auto simp: adv_refl)
  qed
qed

lemma advance_less:
  "pos l < length (input l) \<Longrightarrow>
   length (input (snd (advance l))) - pos (snd (advance l)) < length (input l) - pos l"
  by (simp add: advance_def Let_def)

lemma adv_readString_loop: "readString_loop a b l s = Inr (t, l') \<Longrightarrow> adv l l'"
proof (induction "length (input l) - pos l" arbitrary: l s rule: less_induct)
  case less
  note eq = less.prems [unfolded readString_loop.simps [of a b l s]]
  show ?case
  proof (cases "pos l < length (input l)")
    case False
    with eq show ?thesis by simp
  next
    case True
    let ?l1 = "snd (advance l)"
    have a1: "adv l ?l1" by (rule adv_advance)
    have m1: "length (input ?l1) - pos ?l1 < length (input l) - pos l"
      using True by (rule advance_less)
    show ?thesis
    proof (cases "peek l = CHR 0x22")
      case q: True
      with eq True have "l' = ?l1" by (simp add: Let_def)
      with a1 show ?thesis by simp
    next
      case nq: False
      show ?thesis
      proof (cases "peek l = CHR 0x5C")
        case bs: True
        show ?thesis
        proof (cases "pos ?l1 \<ge> length (input ?l1)")
          case True
          with eq \<open>pos l < length (input l)\<close> nq bs show ?thesis by (simp add: Let_def)
        next
          case False
          let ?l2 = "snd (advance ?l1)"
          have a2: "adv ?l1 ?l2" by (rule adv_advance)
          have m2: "length (input ?l2) - pos ?l2 < length (input ?l1) - pos ?l1"
            using False by (intro advance_less) simp
          from eq \<open>pos l < length (input l)\<close> nq bs False
          obtain s' where "readString_loop a b ?l2 s' = Inr (t, l')" by (simp add: Let_def)
          with less.hyps [of ?l2 s'] m1 m2 have "adv ?l2 l'" by simp
          with a1 a2 show ?thesis by (blast intro: adv_trans)
        qed
      next
        case nbs: False
        from eq True nq nbs
        have "readString_loop a b ?l1 (s @ [fst (advance l)]) = Inr (t, l')" by (simp add: Let_def)
        with less.hyps [of ?l1] m1 have "adv ?l1 l'" by simp
        with a1 show ?thesis by (rule adv_trans)
      qed
    qed
  qed
qed

lemma adv_readLineComment_loop: "readLineComment_loop l s = (l', s') \<Longrightarrow> adv l l'"
proof (induction "length (input l) - pos l" arbitrary: l s rule: less_induct)
  case less
  note eq = less.prems [unfolded readLineComment_loop.simps [of l s]]
  show ?case
  proof (cases "pos l < length (input l) \<and> peek l \<noteq> CHR 0x0A")
    case False
    with eq show ?thesis by (auto simp: adv_refl)
  next
    case True
    let ?l1 = "snd (advance l)"
    have m1: "length (input ?l1) - pos ?l1 < length (input l) - pos l"
      using True by (intro advance_less) simp
    from eq True have "readLineComment_loop ?l1 (s @ [fst (advance l)]) = (l', s')" by simp
    with less.hyps [of ?l1] m1 have "adv ?l1 l'" by simp
    with adv_advance [of l] show ?thesis by (rule adv_trans)
  qed
qed

lemma adv_readHex_loop: "readHex_loop l s = (l', s') \<Longrightarrow> adv l l'"
proof (induction "length (input l) - pos l" arbitrary: l s rule: less_induct)
  case less
  note eq = less.prems [unfolded readHex_loop.simps [of l s]]
  show ?case
  proof (cases "pos l < length (input l) \<and> isHexDigit (peek l)")
    case False
    with eq show ?thesis by (auto simp: adv_refl)
  next
    case True
    let ?l1 = "snd (advance l)"
    have m1: "length (input ?l1) - pos ?l1 < length (input l) - pos l"
      using True by (intro advance_less) simp
    from eq True have "readHex_loop ?l1 (s @ [fst (advance l)]) = (l', s')" by simp
    with less.hyps [of ?l1] m1 have "adv ?l1 l'" by simp
    with adv_advance [of l] show ?thesis by (rule adv_trans)
  qed
qed

lemma adv_readDigits_loop: "readDigits_loop l s = (l', s') \<Longrightarrow> adv l l'"
proof (induction "length (input l) - pos l" arbitrary: l s rule: less_induct)
  case less
  note eq = less.prems [unfolded readDigits_loop.simps [of l s]]
  show ?case
  proof (cases "pos l < length (input l) \<and> IsDigit (peek l)")
    case False
    with eq show ?thesis by (auto simp: adv_refl)
  next
    case True
    let ?l1 = "snd (advance l)"
    have m1: "length (input ?l1) - pos ?l1 < length (input l) - pos l"
      using True by (intro advance_less) simp
    from eq True have "readDigits_loop ?l1 (s @ [fst (advance l)]) = (l', s')" by simp
    with less.hyps [of ?l1] m1 have "adv ?l1 l'" by simp
    with adv_advance [of l] show ?thesis by (rule adv_trans)
  qed
qed

lemma adv_readComment_loop: "readComment_loop l d s = (l', d', s') \<Longrightarrow> adv l l'"
proof (induction "length (input l) - pos l" arbitrary: l d s rule: less_induct)
  case less
  note eq = less.prems [unfolded readComment_loop.simps [of l d s]]
  show ?case
  proof (cases "pos l < length (input l) \<and> d > 0")
    case False
    with eq show ?thesis by (auto simp: adv_refl)
  next
    case True
    let ?l1 = "snd (advance l)"
    have a1: "adv l ?l1" by (rule adv_advance)
    have m1: "length (input ?l1) - pos ?l1 < length (input l) - pos l"
      using True by (intro advance_less) simp
    have ih: "\<And>d2 s2. readComment_loop ?l1 d2 s2 = (l', d', s') \<Longrightarrow> adv ?l1 l'"
      using less.hyps [of ?l1] m1 by simp
    from eq True have "l' = ?l1 \<or> (\<exists>d2 s2. readComment_loop ?l1 d2 s2 = (l', d', s'))"
      by (auto simp: Let_def split: if_splits)
    then show ?thesis using a1 ih by (auto intro: adv_trans)
  qed
qed

lemma adv_readWord_loop:
  "readWord_loop c l w = (l', w') \<Longrightarrow> adv l l' \<and> (pos l' = pos l \<longrightarrow> w' = w)"
proof (induction "length (input l) - pos l" arbitrary: l w rule: less_induct)
  case less
  note eq = less.prems [unfolded readWord_loop.simps [of c l w]]
  show ?case
  proof (cases "pos l < length (input l)")
    case False
    with eq show ?thesis by (auto simp: adv_refl)
  next
    case True
    let ?l1 = "snd (advance l)"
    let ?l2 = "snd (advance ?l1)"
    have p1: "pos ?l1 = pos l + 1" using True by (rule advance_pos)
    have a1: "adv l ?l1" by (rule adv_advance)
    have a2: "adv ?l1 ?l2" by (rule adv_advance)
    have m1: "length (input ?l1) - pos ?l1 < length (input l) - pos l"
      using True by (rule advance_less)
    have ih1: "\<And>w2. readWord_loop c ?l1 w2 = (l', w') \<Longrightarrow> adv ?l1 l'"
      using less.hyps [of ?l1] m1 by simp
    have ih2: "\<And>w2. pos ?l1 < length (input ?l1) \<Longrightarrow> readWord_loop c ?l2 w2 = (l', w') \<Longrightarrow> adv ?l2 l'"
    proof -
      fix w2 assume b: "pos ?l1 < length (input ?l1)" and r: "readWord_loop c ?l2 w2 = (l', w')"
      from b have "length (input ?l2) - pos ?l2 < length (input ?l1) - pos ?l1" by (rule advance_less)
      with m1 less.hyps [of ?l2 w2] r show "adv ?l2 l'" by simp
    qed
    from eq True have
      "(l' = l \<and> w' = w) \<or> (\<exists>w2. readWord_loop c ?l1 w2 = (l', w')) \<or>
       (pos l + 1 < length (input l) \<and> (\<exists>w2. readWord_loop c ?l2 w2 = (l', w')))"
      by (auto simp: Let_def split: if_splits)
    then consider (stop) "l' = l" "w' = w"
      | (one) w2 where "readWord_loop c ?l1 w2 = (l', w')"
      | (two) w2 where "pos l + 1 < length (input l)" "readWord_loop c ?l2 w2 = (l', w')"
      by blast
    then show ?thesis
    proof cases
      case stop
      then show ?thesis by (simp add: adv_refl)
    next
      case one
      then have "adv ?l1 l'" by (rule ih1)
      with p1 a1 show ?thesis by (auto simp: adv_def)
    next
      case two
      have "pos ?l1 < length (input ?l1)" using two(1) p1 by (simp add: advance_input)
      with two(2) have "adv ?l2 l'" by (intro ih2)
      with p1 a1 a2 show ?thesis by (auto simp: adv_def)
    qed
  qed
qed

definition sadv :: "Lexer \<Rightarrow> Lexer \<Rightarrow> bool" where
  "sadv l l' = (input l' = input l \<and> pos l < pos l')"

lemma sadv_advance: "pos l < length (input l) \<Longrightarrow> sadv l (snd (advance l))"
  by (simp add: sadv_def advance_def Let_def)

lemma sadv_adv: "sadv a b \<Longrightarrow> adv b c \<Longrightarrow> sadv a c"
  by (auto simp: sadv_def adv_def)

lemma adv_sadv: "adv a b \<Longrightarrow> sadv b c \<Longrightarrow> sadv a c"
  by (auto simp: sadv_def adv_def)

lemma sadv_readString: "pos l < length (input l) \<Longrightarrow> readString l = Inr (t, l') \<Longrightarrow> sadv l l'"
  by (auto simp: readString_def Let_def dest!: adv_readString_loop intro: sadv_adv sadv_advance)

lemma sadv_readComment: "pos l < length (input l) \<Longrightarrow> readComment l = Inr (t, l') \<Longrightarrow> sadv l l'"
  by (auto simp: readComment_def Let_def split: prod.splits if_splits
           dest!: adv_readComment_loop intro: sadv_adv sadv_advance)

lemma sadv_readLineComment: "pos l < length (input l) \<Longrightarrow> readLineComment l = Inr (t, l') \<Longrightarrow> sadv l l'"
  by (auto simp: readLineComment_def Let_def split: prod.splits
           dest!: adv_readLineComment_loop intro: sadv_adv sadv_advance adv_advance adv_trans)

lemma sadv_readSingleChar: "pos l < length (input l) \<Longrightarrow> readSingleChar ty l = (t, l') \<Longrightarrow> sadv l l'"
  by (auto simp: readSingleChar_def intro: sadv_advance)

lemma sadv_readWord: "readWord l = Inr (t, l') \<Longrightarrow> sadv l l'"
proof -
  assume r: "readWord l = Inr (t, l')"
  obtain l1 v where lw: "readWord_loop (column l) l [] = (l1, v)" by (cases "readWord_loop (column l) l []")
  with r have v: "v \<noteq> []" and l': "l' = l1" by (auto simp: readWord_def Let_def split: if_splits)
  from adv_readWord_loop [OF lw] v have "adv l l1" "pos l1 \<noteq> pos l" by auto
  then show ?thesis unfolding l' by (auto simp: sadv_def adv_def)
qed

lemma sadv_readNumber:
  assumes "pos l < length (input l)" "isNumberStart l (peek l)" "readNumber l = (t, l')"
  shows "sadv l l'"
proof -
  define l1 where "l1 = (if peek l = CHR ''-'' then snd (advance l) else l)"
  define num1 where "num1 = (if peek l = CHR ''-'' then [fst (advance l)] else [])"
  define hex where "hex = (peek l1 = CHR ''0'' \<and> pos l1 + 1 < length (input l1) \<and>
           (input l1 ! (pos l1 + 1) = CHR ''x'' \<or> input l1 ! (pos l1 + 1) = CHR ''X''))"
  have a1: "adv l l1" by (simp add: l1_def adv_refl adv_advance)
  show ?thesis
  proof (cases hex)
    case True
    let ?l2 = "snd (advance l1)"
    let ?l3 = "snd (advance ?l2)"
    from True have "pos l1 < length (input l1)" by (simp add: hex_def)
    then have s2: "sadv l1 ?l2" by (rule sadv_advance)
    from assms(3) True obtain n n' where "readHex_loop ?l3 n = (l', n')"
      unfolding readNumber_def l1_def [symmetric] num1_def [symmetric] hex_def
      by (auto simp: Let_def l1_def split: prod.splits if_splits)
    then have "adv ?l3 l'" by (rule adv_readHex_loop)
    with adv_advance [of ?l2] have "adv ?l2 l'" by (rule adv_trans)
    with s2 have "sadv l1 l'" by (rule sadv_adv)
    with a1 show ?thesis by (rule adv_sadv)
  next
    case False
    from assms(3) False obtain n n' where r: "readDigits_loop l1 n = (l', n')"
      unfolding readNumber_def l1_def [symmetric] num1_def [symmetric] hex_def
      by (auto simp: Let_def l1_def split: prod.splits if_splits)
    show ?thesis
    proof (cases "peek l = CHR ''-''")
      case True
      then have "sadv l l1" using assms(1) by (simp add: l1_def sadv_advance)
      moreover from r have "adv l1 l'" by (rule adv_readDigits_loop)
      ultimately show ?thesis by (rule sadv_adv)
    next
      case nm: False
      then have e: "l1 = l" by (simp add: l1_def)
      from nm assms(2) have d: "IsDigit (peek l)" by (simp add: isNumberStart_def split: if_splits)
      from r [unfolded e] assms(1) d
      have "readDigits_loop (snd (advance l)) (n @ [fst (advance l)]) = (l', n')"
        by (subst (asm) readDigits_loop.simps) simp
      then have "adv (snd (advance l)) l'" by (rule adv_readDigits_loop)
      with sadv_advance [OF assms(1)] show ?thesis by (rule sadv_adv)
    qed
  qed
qed

lemma NextToken_progress:
  assumes "NextToken l0 = Inr (tok, l')" and "Type tok \<noteq> TokenEOF"
  shows "input l' = input l0 \<and> pos l0 < pos l' \<and> pos l0 < length (input l0)"
proof -
  let ?l = "skipWhitespace l0"
  have a0: "adv l0 ?l" by (rule adv_skipWhitespace)
  have lt: "pos ?l < length (input ?l)"
    using assms by (auto simp: NextToken_def Let_def split: if_splits)
  have num: "\<And>t. isNumberStart ?l (peek ?l) \<Longrightarrow> readNumber ?l = t \<Longrightarrow> sadv ?l (snd t)"
    using lt by (metis sadv_readNumber prod.collapse)
  have sc: "\<And>ty t. readSingleChar ty ?l = t \<Longrightarrow> sadv ?l (snd t)"
    using lt by (metis sadv_readSingleChar prod.collapse)
  have rc: "\<And>t l2. readComment ?l = Inr (t, l2) \<Longrightarrow> sadv ?l l2"
    using lt by (rule sadv_readComment)
  have rl: "\<And>t l2. readLineComment ?l = Inr (t, l2) \<Longrightarrow> sadv ?l l2"
    using lt by (rule sadv_readLineComment)
  have rs: "\<And>t l2. readString ?l = Inr (t, l2) \<Longrightarrow> sadv ?l l2"
    using lt by (rule sadv_readString)
  have "sadv ?l l'"
    using assms(1) lt
    by (auto simp: NextToken_def Let_def split: if_splits
          dest: rc rl rs sadv_readWord num sc)
       (simp_all add: sadv_def)
  with a0 lt show ?thesis by (auto simp: sadv_def adv_def)
qed

subsection \<open>Tokenize\<close>

function Tokenize_loop :: "Lexer \<Rightarrow> Token list \<Rightarrow> lex_error + Token list" where
  "Tokenize_loop l tokens =
     (case NextToken l of
        Inl e \<Rightarrow> Inl e
      | Inr (token, l') \<Rightarrow>
          let tokens' = (if Type token \<noteq> TokenComment then tokens @ [token] else tokens) in
          if Type token = TokenEOF then Inr tokens' else Tokenize_loop l' tokens')"
  by pat_completeness auto
termination
proof (relation "measure (\<lambda>(l, t). length (input l) - pos l)")
  show "wf (measure (\<lambda>(l, t). length (input l) - pos l))" by simp
next
  fix l :: Lexer and tokens :: "Token list" and x2 token l' tokens'
  assume "NextToken l = Inr x2" and "(token, l') = x2" and "Type token \<noteq> TokenEOF"
  then have "NextToken l = Inr (token, l')" by simp
  from NextToken_progress [OF this \<open>Type token \<noteq> TokenEOF\<close>]
  show "((l', tokens'), (l, tokens)) \<in> measure (\<lambda>(l, t). length (input l) - pos l)"
    by (simp add: diff_less_mono2)
qed

declare Tokenize_loop.simps [simp del]

definition Tokenize :: "string \<Rightarrow> lex_error + Token list" where
  "Tokenize src = Tokenize_loop (NewLexer src) []"

section \<open>LUX: number literals (lexer.go, \<open>ParseNumber\<close>)\<close>

text \<open>
  \<open>strconv.ParseInt(s, base, 32)\<close> for base 10 or 16: an optional sign, then one or more
  digits of that base and nothing else (no prefix, no underscore); the value has to fit 32
  bits in two's complement. \<open>None\<close> is an error, of syntax or of range.
\<close>

definition digit_val :: "char \<Rightarrow> nat option" where
  "digit_val c =
     (let n = (of_char c :: nat) in
        if 48 \<le> n \<and> n \<le> 57 then Some (n - 48)
        else if 97 \<le> n \<and> n \<le> 122 then Some (n - 97 + 10)
        else if 65 \<le> n \<and> n \<le> 90 then Some (n - 65 + 10)
        else None)"

fun parse_digits :: "nat \<Rightarrow> string \<Rightarrow> nat \<Rightarrow> nat option" where
  "parse_digits base [] acc = Some acc"
| "parse_digits base (c # cs) acc =
     (case digit_val c of
        None \<Rightarrow> None
      | Some d \<Rightarrow> if d \<ge> base then None else parse_digits base cs (acc * base + d))"

definition ParseInt32 :: "string \<Rightarrow> nat \<Rightarrow> int option" where
  "ParseInt32 s base =
     (if s = [] then None
      else
        let neg = (hd s = CHR ''-'');
            s1 = (if hd s = CHR ''+'' \<or> hd s = CHR ''-'' then tl s else s)
        in
          if s1 = [] then None
          else case parse_digits base s1 0 of
              None \<Rightarrow> None
            | Some un \<Rightarrow>
                if \<not> neg \<and> un \<ge> 2 ^ 31 then None
                else if neg \<and> un > 2 ^ 31 then None
                else Some (if neg then - int un else int un))"

definition HasPrefix :: "string \<Rightarrow> string \<Rightarrow> bool" where
  "HasPrefix s p = (take (length p) s = p)"

datatype compile_error =
    LexError lex_error
  | ExpectedNumberToken
  | InvalidHexNumber string nat
  | InvalidNumber string nat
  | InfiniteLoopInFirstPass nat
  | ExpectedModuleName nat
  | ExpectedImportName nat
  | ExpectedShorthandName nat
  | UnknownWord string nat
  | UnexpectedRBracket nat
  | UnexpectedTokenType TokenType nat
  | ExpectedWordName TokenType nat
  | UnexpectedEndOfDefinition string
  | NestedWordDefinition nat
  | UnexpectedRBracketInDefinition nat
  | NoQuotationStarted nat
  | UnexpectedRBracketInQuotation nat
  | UnexpectedSemicolonInQuotation nat
  | UnknownWordInQuotation string nat
  | InvalidTokenInQuotation TokenType nat
  | UnclosedQuotation nat
  | CombinatorNotSupportedInQuotation string
  | IfElseRequiresTwoQuotations nat
  | UnknownCombinator string nat
  | ReservedMemoryOverflow
  | CompilerPanic

definition ParseNumber :: "Token \<Rightarrow> compile_error + int32" where
  "ParseNumber token =
     (if Type token \<noteq> TokenNumber then Inl ExpectedNumberToken
      else if HasPrefix (Value token) ''0x'' \<or> HasPrefix (Value token) ''0X'' then
        (case ParseInt32 (drop 2 (Value token)) 16 of
           None \<Rightarrow> Inl (InvalidHexNumber (Value token) (Line token))
         | Some v \<Rightarrow> Inr (word_of_int v))
      else
        (case ParseInt32 (Value token) 10 of
           None \<Rightarrow> Inl (InvalidNumber (Value token) (Line token))
         | Some v \<Rightarrow> Inr (word_of_int v)))"

section \<open>LUX: the compiler (pkg/lux/compiler.go)\<close>

subsection \<open>Strings\<close>

text \<open>
  \<open>strings.ToUpper\<close> is modelled on ASCII: the letters \<open>a\<close> to \<open>z\<close> are mapped to
  \<open>A\<close> to \<open>Z\<close> and every other byte is kept (the case mapping of letters outside ASCII is
  not modelled). \<open>Contains\<close> is \<open>strings.Contains\<close>, and \<open>SplitFirst s sep\<close> gives the two
  parts of \<open>strings.SplitN(s, sep, 2)\<close> for an \<open>s\<close> that contains \<open>sep\<close>.
\<close>

definition ToUpper :: "string \<Rightarrow> string" where
  "ToUpper s = map (\<lambda>c. let n = (of_char c :: nat) in if 97 \<le> n \<and> n \<le> 122 then char_of (n - 32) else c) s"

fun Contains :: "string \<Rightarrow> string \<Rightarrow> bool" where
  "Contains [] sep = (sep = [])"
| "Contains (c # cs) sep = (HasPrefix (c # cs) sep \<or> Contains cs sep)"

fun SplitFirst :: "string \<Rightarrow> string \<Rightarrow> string \<times> string" where
  "SplitFirst [] sep = ([], [])"
| "SplitFirst (c # cs) sep =
     (if HasPrefix (c # cs) sep then ([], drop (length sep) (c # cs))
      else case SplitFirst cs sep of (a, b) \<Rightarrow> (c # a, b))"

text \<open>
  \<open>for _, ch := range s\<close> walks the code points of \<open>s\<close> read as UTF-8; a byte that does not
  start a well-formed sequence counts as U+FFFD and the walk moves on by one byte.
\<close>

definition cont_byte :: "nat \<Rightarrow> bool" where
  "cont_byte b = (0x80 \<le> b \<and> b \<le> 0xBF)"

fun decode_runes :: "nat list \<Rightarrow> nat list" where
  "decode_runes [] = []"
| "decode_runes (b0 # bs) =
     (if b0 < 0x80 then b0 # decode_runes bs
      else if 0xC2 \<le> b0 \<and> b0 \<le> 0xDF \<and> length bs \<ge> 1 \<and> cont_byte (bs ! 0) then
        ((b0 mod 32) * 64 + (bs ! 0) mod 64) # decode_runes (drop 1 bs)
      else if 0xE0 \<le> b0 \<and> b0 \<le> 0xEF \<and> length bs \<ge> 2 \<and>
              (if b0 = 0xE0 then 0xA0 \<le> bs ! 0 \<and> bs ! 0 \<le> 0xBF
               else if b0 = 0xED then 0x80 \<le> bs ! 0 \<and> bs ! 0 \<le> 0x9F
               else cont_byte (bs ! 0)) \<and> cont_byte (bs ! 1) then
        ((b0 mod 16) * 4096 + ((bs ! 0) mod 64) * 64 + (bs ! 1) mod 64) # decode_runes (drop 2 bs)
      else if 0xF0 \<le> b0 \<and> b0 \<le> 0xF4 \<and> length bs \<ge> 3 \<and>
              (if b0 = 0xF0 then 0x90 \<le> bs ! 0 \<and> bs ! 0 \<le> 0xBF
               else if b0 = 0xF4 then 0x80 \<le> bs ! 0 \<and> bs ! 0 \<le> 0x8F
               else cont_byte (bs ! 0)) \<and> cont_byte (bs ! 1) \<and> cont_byte (bs ! 2) then
        ((b0 mod 8) * 262144 + ((bs ! 0) mod 64) * 4096 + ((bs ! 1) mod 64) * 64 + (bs ! 2) mod 64)
          # decode_runes (drop 3 bs)
      else RuneError # decode_runes bs)"

definition runes :: "string \<Rightarrow> nat list" where
  "runes s = decode_runes (map of_char s)"

subsection \<open>Tables\<close>

definition builtins :: "string \<Rightarrow> byte option" where
  "builtins = map_of
     [(''DUP'', OpDup), (''DROP'', OpPop), (''SWAP'', OpSwap), (''ROLL'', OpRoll), (''ROT'', OpRot),
      (''+'', OpAdd), (''-'', OpSub), (''*'', OpMul), (''/'', OpDiv), (''MOD'', OpMod),
      (''INC'', OpInc), (''DEC'', OpDec), (''NEGATE'', OpNeg),
      (''AND'', OpAnd), (''OR'', OpOr), (''XOR'', OpXor), (''NOT'', OpNot), (''LSHIFT'', OpShl),
      (''='', OpEq), (''<'', OpLt), (''>'', OpGt),
      (''EXIT'', OpRet)]"

definition combinators :: "string \<Rightarrow> bool" where
  "combinators w = (w \<in> set [''?:'', ''?'', ''!:'', ''|:'', ''#:'', ''CALL'', ''DIP'', ''KEEP''])"

subsection \<open>The state of the compiler\<close>

text \<open>
  The structs \<open>Word\<close>, \<open>Quotation\<close> and \<open>Compiler\<close>. The field \<open>Address\<close> of a word is
  \<open>WordAddress\<close> here, the token cursor \<open>pos\<close> of the compiler is \<open>cpos\<close> and its field \<open>imports\<close>
  is \<open>importMap\<close>; the field \<open>trace\<close> is left out. Offsets into the byte code are natural numbers.
\<close>

record DictWord =
  Name :: string
  WordAddress :: int32
  Module :: string

record Quotation =
  Address :: int32
  EndAddr :: int32
  Code :: "byte list"
  TempAddr :: int32

record Compiler =
  tokens :: "Token list"
  cpos :: nat
  bytecode :: "byte list"
  dictionary :: "string \<rightharpoonup> DictWord"
  quotations :: "Quotation list"
  currentModule :: string
  importMap :: "string \<rightharpoonup> string"
  baseAddr :: int32
  tempAlloc :: int32

text \<open>
  The result of a compiling step: \<open>None\<close> when the fuel that bounds the loops and the
  recursion of the model has run out, otherwise the error or the value returned.
\<close>

type_synonym 'a cres = "(compile_error + 'a) option"

definition cbind :: "'a cres \<Rightarrow> ('a \<Rightarrow> 'b cres) \<Rightarrow> 'b cres" where
  "cbind m k = (case m of None \<Rightarrow> None | Some (Inl e) \<Rightarrow> Some (Inl e) | Some (Inr x) \<Rightarrow> k x)"

definition ok :: "'a \<Rightarrow> 'a cres" where
  "ok x = Some (Inr x)"

definition fail :: "compile_error \<Rightarrow> 'a cres" where
  "fail e = Some (Inl e)"

subsection \<open>Helper methods\<close>

definition cpeek :: "Compiler \<Rightarrow> Token" where
  "cpeek c =
     (if cpos c \<ge> length (tokens c) then \<lparr>Type = TokenEOF, Value = [], Line = 0, Column = 0\<rparr>
      else tokens c ! cpos c)"

definition cadvance :: "Compiler \<Rightarrow> Compiler" where
  "cadvance c = (if cpos c < length (tokens c) then c\<lparr>cpos := cpos c + 1\<rparr> else c)"

definition emit :: "byte list \<Rightarrow> Compiler \<Rightarrow> Compiler" where
  "emit bytes c = c\<lparr>bytecode := bytecode c @ bytes\<rparr>"

definition currentOffset :: "Compiler \<Rightarrow> nat" where
  "currentOffset c = length (bytecode c)"

definition currentAddress :: "Compiler \<Rightarrow> int32" where
  "currentAddress c = baseAddr c + of_nat (length (bytecode c))"

definition allocTemp :: "int32 \<Rightarrow> Compiler \<Rightarrow> (compile_error + int32) \<times> Compiler" where
  "allocTemp sz c =
     (let addr = tempAlloc c; c1 = c\<lparr>tempAlloc := tempAlloc c + sz\<rparr> in
      if sint (tempAlloc c1) > int ReservedMemorySize then (Inl ReservedMemoryOverflow, c1)
      else (Inr addr, c1))"

text \<open>\<open>copy(c.bytecode[at:at+4], vm.EncodeInt32(v))\<close>.\<close>

definition patch32 :: "nat \<Rightarrow> int32 \<Rightarrow> Compiler \<Rightarrow> Compiler" where
  "patch32 at v c = c\<lparr>bytecode := put4 (bytecode c) at (EncodeInt32 v)\<rparr>"

subsection \<open>Directives and word resolution\<close>

definition handleModuleDirective :: "Compiler \<Rightarrow> compile_error + Compiler" where
  "handleModuleDirective c0 =
     (let c = cadvance c0; nameToken = cpeek c in
      if Type nameToken \<noteq> TokenWord then Inl (ExpectedModuleName (Line nameToken))
      else Inr (cadvance (c\<lparr>currentModule := ToUpper (Value nameToken)\<rparr>)))"

definition handleImportDirective :: "Compiler \<Rightarrow> compile_error + Compiler" where
  "handleImportDirective c0 =
     (let c = cadvance c0; nameToken = cpeek c in
      if Type nameToken \<noteq> TokenWord then Inl (ExpectedImportName (Line nameToken))
      else
        let moduleName = ToUpper (Value nameToken); c1 = cadvance c in
        if Type (cpeek c1) = TokenWord \<and> ToUpper (Value (cpeek c1)) = ''AS'' then
          let c2 = cadvance c1; shorthandToken = cpeek c2 in
          if Type shorthandToken \<noteq> TokenWord then Inl (ExpectedShorthandName (Line shorthandToken))
          else
            let shorthand = ToUpper (Value shorthandToken) in
            Inr (cadvance (c2\<lparr>importMap := (importMap c2)(shorthand \<mapsto> moduleName)\<rparr>))
        else Inr c1)"

definition resolveWord :: "Compiler \<Rightarrow> string \<Rightarrow> DictWord option" where
  "resolveWord c wordName =
     (let upperName = ToUpper wordName in
      case dictionary c upperName of
        Some w \<Rightarrow> Some w
      | None \<Rightarrow>
         (case (if \<not> Contains upperName ''::'' \<and> currentModule c \<noteq> []
                then dictionary c (currentModule c @ ''::'' @ upperName) else None) of
            Some w \<Rightarrow> Some w
          | None \<Rightarrow>
              if Contains upperName ''::'' then
                (case SplitFirst upperName ''::'' of (prefix, wordPart) \<Rightarrow>
                   (case importMap c prefix of
                      Some fullModule \<Rightarrow> dictionary c (fullModule @ ''::'' @ wordPart)
                    | None \<Rightarrow> None))
              else None))"

subsection \<open>Combinators\<close>

definition compileIfElse :: "Compiler \<Rightarrow> compile_error + Compiler" where
  "compileIfElse c0 =
     (if length (quotations c0) < 2 then Inl (IfElseRequiresTwoQuotations (Line (cpeek c0)))
      else
        let c1 = emit [OpRot] (emit [OpSwap] c0);
            elseLabel = length (bytecode c1);
            c2 = emit [0, 0, 0, 0] (emit [OpJz] c1);
            c3 = emit [OpCallStack] (emit [OpPop] (emit [OpSwap] c2));
            endLabel = length (bytecode c3);
            c4 = emit [0, 0, 0, 0] (emit [OpJmp] c3);
            elseBranch = currentAddress c4;
            c5 = emit [OpCallStack] (emit [OpPop] c4);
            end' = currentAddress c5;
            c6 = patch32 (elseLabel + 1) elseBranch c5;
            c7 = patch32 (endLabel + 1) end' c6
        in Inr c7)"

definition compileIf :: "Compiler \<Rightarrow> compile_error + Compiler" where
  "compileIf c0 =
     (let c1 = emit [OpJz] (emit [OpSwap] c0);
          skipLabel = currentOffset c1;
          c2 = emit [OpJmp] (emit [OpCallStack] (emit [0, 0, 0, 0] c1));
          endLabel = currentOffset c2;
          c3 = emit [0, 0, 0, 0] c2;
          skip = currentAddress c3;
          c4 = emit [OpPop] c3;
          end' = currentAddress c4;
          c5 = patch32 skipLabel skip c4;
          c6 = patch32 endLabel end' c5
      in Inr c6)"

definition compileUnless :: "Compiler \<Rightarrow> compile_error + Compiler" where
  "compileUnless c0 =
     (let c1 = emit [OpJnz] (emit [OpSwap] c0);
          skipLabel = currentOffset c1;
          c2 = emit [OpJmp] (emit [OpCallStack] (emit [0, 0, 0, 0] c1));
          endLabel = currentOffset c2;
          c3 = emit [0, 0, 0, 0] c2;
          skip = currentAddress c3;
          c4 = emit [OpPop] c3;
          end' = currentAddress c4;
          c5 = patch32 skipLabel skip c4;
          c6 = patch32 endLabel end' c5
      in Inr c6)"

definition compileWhile :: "Compiler \<Rightarrow> compile_error + Compiler" where
  "compileWhile c0 =
     (case allocTemp 4 c0 of
        (Inl e, _) \<Rightarrow> Inl e
      | (Inr tempCondAddr, ca) \<Rightarrow>
     (case allocTemp 4 ca of
        (Inl e, _) \<Rightarrow> Inl e
      | (Inr tempBodyAddr, cb) \<Rightarrow>
        let c1 = emit (EncodeInt32 tempBodyAddr) (emit [OpStore] cb);
            c2 = emit (EncodeInt32 tempCondAddr) (emit [OpStore] c1);
            loopStart = currentAddress c2;
            c3 = emit [OpDup] c2;
            c4 = emit [OpCallStack] (emit (EncodeInt32 tempCondAddr) (emit [OpLoad] c3));
            c5 = emit [OpJz] c4;
            exitLabel = currentOffset c5;
            c6 = emit [0, 0, 0, 0] c5;
            c7 = emit [OpCallStack] (emit (EncodeInt32 tempBodyAddr) (emit [OpLoad] c6));
            c8 = emit (EncodeInt32 loopStart) (emit [OpJmp] c7);
            exit = currentAddress c8;
            c9 = patch32 exitLabel exit c8
        in Inr c9))"

definition compileTimes :: "Compiler \<Rightarrow> compile_error + Compiler" where
  "compileTimes c0 =
     (case allocTemp 4 c0 of
        (Inl e, _) \<Rightarrow> Inl e
      | (Inr tempQuotAddr, ca) \<Rightarrow>
     (case allocTemp 4 ca of
        (Inl e, _) \<Rightarrow> Inl e
      | (Inr tempCountAddr, cb) \<Rightarrow>
        let loopStart = currentAddress cb;
            c1 = emit [OpJz] (emit [OpDup] cb);
            exitLabel = currentOffset c1;
            c2 = emit [0, 0, 0, 0] c1;
            c3 = emit (EncodeInt32 tempCountAddr) (emit [OpStore] (emit [OpDec] c2));
            c4 = emit (EncodeInt32 tempQuotAddr) (emit [OpStore] c3);
            c5 = emit [OpCallStack] (emit (EncodeInt32 tempQuotAddr) (emit [OpLoad] c4));
            c6 = emit (EncodeInt32 tempQuotAddr) (emit [OpLoad] c5);
            c7 = emit (EncodeInt32 tempCountAddr) (emit [OpLoad] c6);
            c8 = emit (EncodeInt32 loopStart) (emit [OpJmp] c7);
            exit = currentAddress c8;
            c9 = emit [OpPop] (emit [OpPop] c8);
            c10 = patch32 exitLabel exit c9
        in Inr c10))"

definition compileDip :: "Compiler \<Rightarrow> compile_error + Compiler" where
  "compileDip c = Inr (emit [OpCallStack] c)"

definition compileKeep :: "Compiler \<Rightarrow> compile_error + Compiler" where
  "compileKeep c = Inr (emit [OpCallStack] (emit [OpRot] (emit [OpDup] (emit [OpSwap] c))))"

definition compileCombinator :: "string \<Rightarrow> nat \<Rightarrow> Compiler \<Rightarrow> compile_error + Compiler" where
  "compileCombinator name line' c =
     (let n = ToUpper name in
      if n = ''CALL'' then Inr (emit [OpCallStack] c)
      else if n = ''?:'' then compileIfElse c
      else if n = ''?'' then compileIf c
      else if n = ''!:'' then compileUnless c
      else if n = ''|:'' then compileWhile c
      else if n = ''#:'' then compileTimes c
      else if n = ''DIP'' then compileDip c
      else if n = ''KEEP'' then compileKeep c
      else Inl (UnknownCombinator name line'))"

subsection \<open>Single tokens\<close>

text \<open>The bytes emitted for a string literal: \<open>PUSH ch; PUSH 1; OUT\<close> for every code point.\<close>

definition string_code :: "string \<Rightarrow> byte list" where
  "string_code s =
     concat (map (\<lambda>ch. [OpPush] @ EncodeInt32 (of_nat ch) @ [OpPush] @ EncodeInt32 1 @ [OpOut]) (runes s))"

definition compileToken :: "Token \<Rightarrow> Compiler \<Rightarrow> compile_error + Compiler" where
  "compileToken token c =
     (if Type token = TokenNumber then
        (case ParseNumber token of
           Inl e \<Rightarrow> Inl e
         | Inr v \<Rightarrow> Inr (emit (EncodeInt32 v) (emit [OpPush] c)))
      else if Type token = TokenString then Inr (emit (string_code (Value token)) c)
      else if Type token = TokenWord then
        let wordName = ToUpper (Value token) in
        if wordName = ''.'' then Inr (emit [OpOut] (emit (EncodeInt32 0) (emit [OpPush] c)))
        else if wordName = ''EMIT'' then Inr (emit [OpOut] (emit (EncodeInt32 1) (emit [OpPush] c)))
        else case resolveWord c wordName of
            Some w \<Rightarrow> Inr (emit (EncodeInt32 (WordAddress w)) (emit [OpCall] c))
          | None \<Rightarrow>
              if combinators wordName then compileCombinator wordName (Line token) c
              else case builtins wordName of
                  Some opcode \<Rightarrow> Inr (emit [opcode] c)
                | None \<Rightarrow> Inl (UnknownWord (Value token) (Line token))
      else if Type token = TokenLBracket then
        let tempAddr = currentAddress c + 5;
            c1 = c\<lparr>quotations := quotations c @ [\<lparr>Address = 0, EndAddr = 0, Code = [], TempAddr = tempAddr\<rparr>]\<rparr>
        in Inr (emit (EncodeInt32 tempAddr) (emit [OpPush] c1))
      else if Type token = TokenRBracket then Inl (UnexpectedRBracket (Line token))
      else Inl (UnexpectedTokenType (Type token) (Line token)))"

subsection \<open>Quotations\<close>

text \<open>
  \<open>quot.Code = append(quot.Code, bytes...)\<close> for the quotation at index \<open>quotIndex\<close>, which
  is what the pointer \<open>quot\<close> designates whenever the source writes through it.
\<close>

definition appendCode :: "nat \<Rightarrow> byte list \<Rightarrow> Compiler \<Rightarrow> Compiler" where
  "appendCode quotIndex bytes c =
     c\<lparr>quotations := (quotations c)[quotIndex :=
          (quotations c ! quotIndex)\<lparr>Code := Code (quotations c ! quotIndex) @ bytes\<rparr>]\<rparr>"

definition compileQuotationCombinator :: "string \<Rightarrow> nat \<Rightarrow> Compiler \<Rightarrow> compile_error + Compiler" where
  "compileQuotationCombinator name quotIndex c =
     (let n = ToUpper name in
      if n = ''DIP'' then Inr (appendCode quotIndex [OpCallStack] c)
      else if n = ''KEEP'' then Inr (appendCode quotIndex [OpSwap, OpDup, OpRot, OpCallStack] c)
      else if n = ''CALL'' then Inr (appendCode quotIndex [OpCallStack] c)
      else Inl (CombinatorNotSupportedInQuotation name))"

text \<open>
  A token other than a bracket (and, inside a definition, a semicolon) in the body of a
  quotation: the \<open>switch\<close> that \<open>compileQuotation\<close> and \<open>compileQuotationInDefinition\<close>
  both have. The token is consumed.
\<close>

definition compileQuotationToken :: "Token \<Rightarrow> nat \<Rightarrow> Compiler \<Rightarrow> compile_error + Compiler" where
  "compileQuotationToken token quotIndex c =
     (if Type token = TokenNumber then
        (case ParseNumber token of
           Inl e \<Rightarrow> Inl e
         | Inr num \<Rightarrow> Inr (cadvance (appendCode quotIndex ([OpPush] @ EncodeInt32 num) c)))
      else if Type token = TokenWord then
        let upperVal = ToUpper (Value token) in
        if upperVal = ''.'' then Inr (cadvance (appendCode quotIndex ([OpPush] @ EncodeInt32 0 @ [OpOut]) c))
        else if upperVal = ''EMIT'' then
          Inr (cadvance (appendCode quotIndex ([OpPush] @ EncodeInt32 1 @ [OpOut]) c))
        else case builtins upperVal of
            Some opcode \<Rightarrow> Inr (cadvance (appendCode quotIndex [opcode] c))
          | None \<Rightarrow>
              if combinators upperVal then compileQuotationCombinator upperVal quotIndex (cadvance c)
              else case resolveWord c upperVal of
                  Some w \<Rightarrow> Inr (cadvance (appendCode quotIndex ([OpCall] @ EncodeInt32 (WordAddress w)) c))
                | None \<Rightarrow> Inl (UnknownWordInQuotation (Value token) (Line token))
      else if Type token = TokenString then
        Inr (cadvance (appendCode quotIndex (string_code (Value token)) c))
      else Inl (InvalidTokenInQuotation (Type token) (Line token)))"

text \<open>
  \<open>compileQuotation\<close> (\<open>inDef = False\<close>) and \<open>compileQuotationInDefinition\<close>
  (\<open>inDef = True\<close>), which differ only in that the second refuses a semicolon.
  \<open>CompilerPanic\<close> stands for the index panic of \<open>c.tokens[c.pos-1]\<close> at position 0.
  \<open>quotation_loop\<close> is the \<open>for\<close> loop of either: it returns the compiler and the depth with
  which the loop is left. A nested \<open>[\<close> raises \<open>depth\<close>, and the matching \<open>]\<close> is consumed
  by the recursive call, which does not lower it.
\<close>

fun compileQuotationGen :: "nat \<Rightarrow> bool \<Rightarrow> Compiler \<Rightarrow> Compiler cres"
  and quotation_loop :: "nat \<Rightarrow> bool \<Rightarrow> nat \<Rightarrow> int \<Rightarrow> Compiler \<Rightarrow> (Compiler \<times> int) cres" where
  "compileQuotationGen 0 inDef c = None"
| "compileQuotationGen (Suc fuel) inDef c =
     (if length (quotations c) = 0 then fail (NoQuotationStarted (Line (cpeek c)))
      else
        let quotIndex = length (quotations c) - 1 in
        cbind (quotation_loop fuel inDef quotIndex 1 c) (\<lambda>(c1, depth).
          if Type (cpeek c1) \<noteq> TokenRBracket then
            (if cpos c1 = 0 \<or> cpos c1 - 1 \<ge> length (tokens c1) then fail CompilerPanic
             else fail (UnclosedQuotation (Line (tokens c1 ! (cpos c1 - 1)))))
          else ok (cadvance (appendCode quotIndex [OpRet] c1))))"
| "quotation_loop 0 inDef quotIndex depth c = None"
| "quotation_loop (Suc fuel) inDef quotIndex depth c =
     (if cpos c < length (tokens c) \<and> depth > 0 \<and> Type (cpeek c) \<noteq> TokenEOF then
        let token = cpeek c in
        if Type token = TokenLBracket then
          let tempAddr = (of_nat (0x1000 + length (quotations c) * 0x100) :: int32);
              c1 = appendCode quotIndex ([OpPush] @ EncodeInt32 tempAddr) c;
              c2 = c1\<lparr>quotations := quotations c1 @ [\<lparr>Address = 0, EndAddr = 0, Code = [], TempAddr = tempAddr\<rparr>]\<rparr>;
              c3 = cadvance c2
          in cbind (compileQuotationGen fuel inDef c3) (\<lambda>c4.
               quotation_loop fuel inDef quotIndex (depth + 1) c4)
        else if Type token = TokenRBracket then
          (if depth - 1 = 0 then ok (c, depth - 1)
           else fail (UnexpectedRBracketInQuotation (Line token)))
        else if inDef \<and> Type token = TokenSemicolon then
          fail (UnexpectedSemicolonInQuotation (Line token))
        else
          (case compileQuotationToken token quotIndex c of
             Inl e \<Rightarrow> fail e
           | Inr c1 \<Rightarrow> quotation_loop fuel inDef quotIndex depth c1)
      else ok (c, depth))"

definition compileQuotation :: "nat \<Rightarrow> Compiler \<Rightarrow> Compiler cres" where
  "compileQuotation fuel c = compileQuotationGen fuel False c"

definition compileQuotationInDefinition :: "nat \<Rightarrow> Compiler \<Rightarrow> Compiler cres" where
  "compileQuotationInDefinition fuel c = compileQuotationGen fuel True c"

subsection \<open>Word definitions\<close>

fun word_loop :: "nat \<Rightarrow> string \<Rightarrow> Compiler \<Rightarrow> Compiler cres" where
  "word_loop 0 wordName c = None"
| "word_loop (Suc fuel) wordName c =
     (let token = cpeek c in
      if Type token = TokenEOF then fail (UnexpectedEndOfDefinition wordName)
      else if Type token = TokenSemicolon then ok (cadvance c)
      else if Type token = TokenAtSign then fail (NestedWordDefinition (Line token))
      else if Type token = TokenLBracket then
        let tempAddr = currentAddress c + 5;
            c1 = c\<lparr>quotations := quotations c @ [\<lparr>Address = 0, EndAddr = 0, Code = [], TempAddr = tempAddr\<rparr>]\<rparr>;
            c2 = emit (EncodeInt32 tempAddr) (emit [OpPush] c1);
            c3 = cadvance c2
        in cbind (compileQuotationInDefinition fuel c3) (\<lambda>c4. word_loop fuel wordName c4)
      else if Type token = TokenRBracket then fail (UnexpectedRBracketInDefinition (Line token))
      else
        (case compileToken token c of
           Inl e \<Rightarrow> fail e
         | Inr c1 \<Rightarrow> word_loop fuel wordName (cadvance c1)))"

definition compileWordDefinition :: "nat \<Rightarrow> Compiler \<Rightarrow> Compiler cres" where
  "compileWordDefinition fuel c0 =
     (let c1 = cadvance c0; nameToken = cpeek c1; c2 = cadvance c1 in
      if Type nameToken \<noteq> TokenWord then fail (ExpectedWordName (Type nameToken) (Line nameToken))
      else
        let baseName = ToUpper (Value nameToken);
            wordName = (if currentModule c2 \<noteq> [] \<and> \<not> Contains baseName ''::''
                        then currentModule c2 @ ''::'' @ baseName else baseName);
            wordAddress = currentAddress c2
        in cbind (word_loop fuel wordName c2) (\<lambda>c3.
             let c4 = emit [OpRet] c3 in
             ok (c4\<lparr>dictionary := (dictionary c4)(wordName \<mapsto>
                   \<lparr>Name = wordName, WordAddress = wordAddress, Module = currentModule c4\<rparr>)\<rparr>)))"

function skip_loop :: "int \<Rightarrow> Compiler \<Rightarrow> Compiler" where
  "skip_loop depth c =
     (if Type (cpeek c) \<noteq> TokenEOF then
        let token = cpeek c in
        if Type token = TokenLBracket then skip_loop (depth + 1) (cadvance c)
        else if Type token = TokenRBracket then skip_loop (depth - 1) (cadvance c)
        else if Type token = TokenSemicolon \<and> depth = 0 then cadvance c
        else skip_loop depth (cadvance c)
      else c)"
  by pat_completeness auto
termination
  by (relation "measure (\<lambda>(d, c). length (tokens c) - cpos c)")
     (auto simp: cpeek_def cadvance_def split: if_splits)

declare skip_loop.simps [simp del]

definition skipWordDefinition :: "Compiler \<Rightarrow> Compiler" where
  "skipWordDefinition c = skip_loop 0 (cadvance (cadvance c))"

subsection \<open>The two passes\<close>

fun first_pass :: "nat \<Rightarrow> nat \<Rightarrow> nat \<Rightarrow> Compiler \<Rightarrow> Compiler cres" where
  "first_pass 0 iterations maxIterations c = None"
| "first_pass (Suc fuel) iterations maxIterations c =
     (if cpos c < length (tokens c) \<and> Type (cpeek c) \<noteq> TokenEOF then
        if iterations + 1 > maxIterations then fail (InfiniteLoopInFirstPass (cpos c))
        else
          let token = cpeek c in
          if Type token = TokenWord \<and> ToUpper (Value token) = ''MODULE'' then
            (case handleModuleDirective c of
               Inl e \<Rightarrow> fail e
             | Inr c1 \<Rightarrow> first_pass fuel (iterations + 1) maxIterations c1)
          else if Type token = TokenWord \<and> ToUpper (Value token) = ''IMPORT'' then
            (case handleImportDirective c of
               Inl e \<Rightarrow> fail e
             | Inr c1 \<Rightarrow> first_pass fuel (iterations + 1) maxIterations c1)
          else if Type token = TokenAtSign then
            cbind (compileWordDefinition fuel c) (\<lambda>c1. first_pass fuel (iterations + 1) maxIterations c1)
          else first_pass fuel (iterations + 1) maxIterations (cadvance c)
      else ok c)"

fun second_pass :: "nat \<Rightarrow> Compiler \<Rightarrow> Compiler cres" where
  "second_pass 0 c = None"
| "second_pass (Suc fuel) c =
     (if cpos c < length (tokens c) \<and> Type (cpeek c) \<noteq> TokenEOF then
        let token = cpeek c in
        if Type token = TokenWord \<and> ToUpper (Value token) = ''MODULE'' then
          second_pass fuel (cadvance (cadvance c))
        else if Type token = TokenWord \<and> ToUpper (Value token) = ''IMPORT'' then
          let c1 = cadvance (cadvance c) in
          if Type (cpeek c1) = TokenWord \<and> ToUpper (Value (cpeek c1)) = ''AS''
          then second_pass fuel (cadvance (cadvance c1))
          else second_pass fuel c1
        else if Type token = TokenAtSign then second_pass fuel (skipWordDefinition c)
        else if Type token = TokenLBracket then
          (case compileToken token c of
             Inl e \<Rightarrow> fail e
           | Inr c1 \<Rightarrow> cbind (compileQuotation fuel (cadvance c1)) (\<lambda>c2. second_pass fuel c2))
        else if Type token \<noteq> TokenEOF then
          (case compileToken token c of
             Inl e \<Rightarrow> fail e
           | Inr c1 \<Rightarrow> second_pass fuel (cadvance c1))
        else ok c
      else ok c)"

subsection \<open>Placing the quotations and patching their addresses\<close>

text \<open>
  The loop that appends the code of every quotation after the main code and records the
  map from placeholder to real address.
\<close>

function place_loop :: "nat \<Rightarrow> (int32 \<rightharpoonup> int32) \<Rightarrow> Compiler \<Rightarrow> (int32 \<rightharpoonup> int32) \<times> Compiler" where
  "place_loop i addrMap c =
     (if i < length (quotations c) then
        let q = quotations c ! i;
            a = currentAddress c;
            addrMap1 = addrMap(TempAddr q \<mapsto> a);
            c1 = c\<lparr>bytecode := bytecode c @ Code q\<rparr>;
            c2 = c1\<lparr>quotations := (quotations c1)[i := q\<lparr>Address := a, EndAddr := currentAddress c1\<rparr>]\<rparr>
        in place_loop (i + 1) addrMap1 c2
      else (addrMap, c))"
  by pat_completeness auto
termination
  by (relation "measure (\<lambda>(i, m, c). length (quotations c) - i)") auto

declare place_loop.simps [simp del]

text \<open>
  One step of the patching scan at offset \<open>j\<close> of a region that ends before \<open>e\<close>: where the
  byte is \<open>PUSH\<close>, four more bytes lie inside the region and they are a key of the map, they
  are overwritten with the real address. \<open>patchRange\<close> is the scan from \<open>j\<close> to \<open>e\<close>.
\<close>

definition patchAt :: "(int32 \<rightharpoonup> int32) \<Rightarrow> nat \<Rightarrow> nat \<Rightarrow> byte list \<Rightarrow> byte list" where
  "patchAt addrMap e j bc =
     (if bc ! j = OpPush \<and> j + 4 < e then
        (case addrMap (BigEndianUint32 (take 4 (drop (j + 1) bc))) of
           Some realAddr \<Rightarrow> put4 bc (j + 1) (EncodeInt32 realAddr)
         | None \<Rightarrow> bc)
      else bc)"

function patchRange :: "(int32 \<rightharpoonup> int32) \<Rightarrow> nat \<Rightarrow> nat \<Rightarrow> byte list \<Rightarrow> byte list" where
  "patchRange addrMap e j bc =
     (if j < e then patchRange addrMap e (j + 1) (patchAt addrMap e j bc) else bc)"
  by pat_completeness auto
termination
  by (relation "measure (\<lambda>(m, e, j, bc). e - j)") auto

declare patchRange.simps [simp del]

text \<open>The second scan: the placed code of every quotation, one after the other.\<close>

function patch_quotations :: "nat \<Rightarrow> nat \<Rightarrow> (int32 \<rightharpoonup> int32) \<Rightarrow> Compiler \<Rightarrow> Compiler" where
  "patch_quotations i currentPos addrMap c =
     (if i < length (quotations c) then
        let n = length (Code (quotations c ! i)) in
        patch_quotations (i + 1) (currentPos + n) addrMap
          (c\<lparr>bytecode := patchRange addrMap (currentPos + n) currentPos (bytecode c)\<rparr>)
      else c)"
  by pat_completeness auto
termination
  by (relation "measure (\<lambda>(i, p, m, c). length (quotations c) - i)") auto

declare patch_quotations.simps [simp del]

subsection \<open>compile and Compile\<close>

definition finish :: "Compiler \<Rightarrow> byte list" where
  "finish c0 =
     (let skipQuotationsLabel = length (bytecode c0);
          c1 = emit [0, 0, 0, 0] (emit [OpJmp] c0);
          mainEndPos = length (bytecode c1)
      in case place_loop 0 Map.empty c1 of (addrMap, c2) \<Rightarrow>
        let c3 = c2\<lparr>bytecode := patchRange addrMap mainEndPos 0 (bytecode c2)\<rparr>;
            c4 = patch_quotations 0 mainEndPos addrMap c3;
            haltAddr = currentAddress c4;
            c5 = emit [OpHalt] c4;
            c6 = patch32 (skipQuotationsLabel + 1) haltAddr c5
        in bytecode c6)"

definition compile :: "nat \<Rightarrow> Compiler \<Rightarrow> (byte list) cres" where
  "compile fuel c0 =
     (let jmpAddr = length (bytecode c0);
          c1 = emit [0, 0, 0, 0] (emit [OpJmp] c0);
          startPos = cpos c1;
          maxIterations = length (tokens c1) * 2
      in cbind (first_pass fuel 0 maxIterations c1) (\<lambda>c2.
           let mainStart = currentAddress c2;
               c3 = patch32 (jmpAddr + 1) mainStart c2;
               c4 = c3\<lparr>cpos := startPos\<rparr>
           in cbind (second_pass fuel c4) (\<lambda>c5. ok (finish c5))))"

definition NewCompiler :: "Token list \<Rightarrow> Compiler" where
  "NewCompiler toks =
     \<lparr>tokens = toks, cpos = 0, bytecode = [], dictionary = Map.empty, quotations = [],
      currentModule = [], importMap = Map.empty, baseAddr = 4096, tempAlloc = 0\<rparr>"

definition Compile :: "nat \<Rightarrow> string \<Rightarrow> (byte list) cres" where
  "Compile fuel source =
     (case Tokenize source of
        Inl e \<Rightarrow> fail (LexError e)
      | Inr toks \<Rightarrow> compile fuel (NewCompiler toks))"

section \<open>The LUX read-eval-print loop (cmd/luxrepl/main.go)\<close>

subsection \<open>strings.Fields\<close>

text \<open>
  The first code point of a byte string read as UTF-8, with the number of bytes it takes; a
  byte that does not start a well-formed sequence is U+FFFD of width one.
\<close>

definition decode_rune :: "nat list \<Rightarrow> nat \<times> nat" where
  "decode_rune s =
     (case s of [] \<Rightarrow> (RuneError, 0)
      | b0 # bs \<Rightarrow>
        if b0 < 0x80 then (b0, 1)
        else if 0xC2 \<le> b0 \<and> b0 \<le> 0xDF \<and> length bs \<ge> 1 \<and> cont_byte (bs ! 0) then
          ((b0 mod 32) * 64 + (bs ! 0) mod 64, 2)
        else if 0xE0 \<le> b0 \<and> b0 \<le> 0xEF \<and> length bs \<ge> 2 \<and>
                (if b0 = 0xE0 then 0xA0 \<le> bs ! 0 \<and> bs ! 0 \<le> 0xBF
                 else if b0 = 0xED then 0x80 \<le> bs ! 0 \<and> bs ! 0 \<le> 0x9F
                 else cont_byte (bs ! 0)) \<and> cont_byte (bs ! 1) then
          ((b0 mod 16) * 4096 + ((bs ! 0) mod 64) * 64 + (bs ! 1) mod 64, 3)
        else if 0xF0 \<le> b0 \<and> b0 \<le> 0xF4 \<and> length bs \<ge> 3 \<and>
                (if b0 = 0xF0 then 0x90 \<le> bs ! 0 \<and> bs ! 0 \<le> 0xBF
                 else if b0 = 0xF4 then 0x80 \<le> bs ! 0 \<and> bs ! 0 \<le> 0x8F
                 else cont_byte (bs ! 0)) \<and> cont_byte (bs ! 1) \<and> cont_byte (bs ! 2) then
          ((b0 mod 8) * 262144 + ((bs ! 0) mod 64) * 4096 + ((bs ! 1) mod 64) * 64 + (bs ! 2) mod 64, 4)
        else (RuneError, 1))"

text \<open>\<open>unicode.IsSpace\<close> on a code point: the Latin-1 spaces and the property White_Space.\<close>

definition IsSpaceRune :: "nat \<Rightarrow> bool" where
  "IsSpaceRune r =
     ((9 \<le> r \<and> r \<le> 13) \<or> r = 0x20 \<or> r = 0x85 \<or> r = 0xA0 \<or> r = 0x1680 \<or>
      (0x2000 \<le> r \<and> r \<le> 0x200A) \<or> r = 0x2028 \<or> r = 0x2029 \<or> r = 0x202F \<or>
      r = 0x205F \<or> r = 0x3000)"

text \<open>
  \<open>strings.Fields\<close>: the maximal runs of code points that are not spaces. The loop keeps the
  number \<open>k\<close> of bytes of the current code point still to come, whether that code point is
  a space, and the field read so far.
\<close>

fun Fields_loop :: "nat \<Rightarrow> bool \<Rightarrow> string \<Rightarrow> string \<Rightarrow> string list" where
  "Fields_loop k sp cur [] = (if cur = [] then [] else [cur])"
| "Fields_loop k sp cur (c # cs) =
     (if k > 0 then
        (if sp then Fields_loop (k - 1) sp cur cs else Fields_loop (k - 1) sp (cur @ [c]) cs)
      else
        case decode_rune (map of_char (c # cs)) of (r, w) \<Rightarrow>
          if IsSpaceRune r then (if cur = [] then [] else [cur]) @ Fields_loop (w - 1) True [] cs
          else Fields_loop (w - 1) False (cur @ [c]) cs)"

definition Fields :: "string \<Rightarrow> string list" where
  "Fields s = Fields_loop 0 False [] s"

subsection \<open>The state and \<open>evaluate\<close>\<close>

text \<open>
  The struct \<open>REPL\<close> without its scanner; the field \<open>stack\<close> is \<open>stack_repl\<close> here.
\<close>

record REPL =
  history :: string
  stack_repl :: "int32 list"
  definitions :: "string list"

definition NewREPL :: REPL where
  "NewREPL = \<lparr>history = [], stack_repl = [], definitions = []\<rparr>"

text \<open>
  What one call of \<open>evaluate\<close> reports on the terminal: the complaint about a definition
  without \<open>;\<close>, the word defined (none when the line has no field after \<open>@\<close>), a compile error,
  a runtime error, or the stack after a successful run. \<open>Crashed\<close> is a Go panic, which
  ends the process.
\<close>

datatype repl_report =
    DefinitionNeedsSemicolon
  | Defined "string option"
  | CompileError compile_error
  | RuntimeError vm_error
  | StackShown "int32 list"
  | Crashed

fun vm_panic :: "vm_error \<Rightarrow> bool" where
  "vm_panic GoPanic = True"
| "vm_panic (Failed name e) = vm_panic e"
| "vm_panic (ErrorAtPC p e) = vm_panic e"
| "vm_panic e = False"

text \<open>The source that \<open>evaluate\<close> compiles: the history, the saved stack as literals, the line.\<close>

definition repl_source :: "REPL \<Rightarrow> string \<Rightarrow> string" where
  "repl_source r ln =
     history r @ concat (map (\<lambda>val. FormatInt (sint val) @ '' '') (stack_repl r)) @ ln"

text \<open>
  \<open>evaluate\<close>. The result is what the program run by the line wrote to the standard output,
  the report, and the state of the REPL after the call; \<open>None\<close> when the fuel given to
  \<open>Compile\<close> and \<open>Run\<close> has run out.
\<close>

definition evaluate :: "nat \<Rightarrow> REPL \<Rightarrow> string \<Rightarrow> (string \<times> repl_report \<times> REPL) option" where
  "evaluate fuel r ln =
     (if HasPrefix ln ''@'' then
        if \<not> Contains ln '';'' then Some ([], DefinitionNeedsSemicolon, r)
        else
          let r1 = r\<lparr>history := history r @ ln @ [CHR 0x0A]\<rparr>;
              parts = Fields (drop 1 ln)
          in if length parts \<ge> 1
             then Some ([], Defined (Some (parts ! 0)), r1\<lparr>definitions := definitions r1 @ [parts ! 0]\<rparr>)
             else Some ([], Defined None, r1)
      else
        case Compile fuel (repl_source r ln) of
          None \<Rightarrow> None
        | Some (Inl e) \<Rightarrow>
            if e = CompilerPanic then Some ([], Crashed, r) else Some ([], CompileError e, r)
        | Some (Inr prog) \<Rightarrow>
            (case Run fuel (NewVM prog) of
               None \<Rightarrow> None
             | Some (Some e, machine) \<Rightarrow>
                 if vm_panic e then Some (stdout machine, Crashed, r)
                 else Some (stdout machine, RuntimeError e, r)
             | Some (None, machine) \<Rightarrow>
                 Some (stdout machine, StackShown (stack machine), r\<lparr>stack_repl := stack machine\<rparr>)))"

section \<open>Auxiliary notions for stating the properties\<close>

text \<open>
  \<open>pres vm r\<close>: the result \<open>r\<close> of an operation started on \<open>vm\<close> has the running flag
  and the standard output of \<open>vm\<close>.
\<close>

definition pres :: "VM \<Rightarrow> vm_error option \<times> VM \<Rightarrow> bool" where
  "pres vm r = (running (snd r) = running vm \<and> stdout (snd r) = stdout vm)"

text \<open>
  \<open>exec_n n vm\<close>: \<open>n\<close> successive calls of \<open>ExecuteInstruction\<close>, stopping at the first
  error, as a caller stepping the machine does.
\<close>

fun exec_n :: "nat \<Rightarrow> VM \<Rightarrow> vm_error option \<times> VM" where
  "exec_n 0 vm = (None, vm)"
| "exec_n (Suc n) vm =
     (case ExecuteInstruction vm of
        (Some e, vm') \<Rightarrow> (Some e, vm')
      | (None, vm') \<Rightarrow> exec_n n vm')"

text \<open>The number that a string of decimal digits denotes.\<close>

definition digits_value :: "string \<Rightarrow> nat" where
  "digits_value ds = foldl (\<lambda>a c. 10 * a + (of_char c - 48)) 0 ds"

section \<open>Concrete machines and programs used below\<close>

text \<open>A machine about to execute \<open>DIV\<close> with the stack \<open>[7, 0]\<close>.\<close>

definition vm_div0 :: VM where
  "vm_div0 = (NewVM [OpDiv])\<lparr>stack := [7, 0]\<rparr>"

text \<open>A fresh machine whose program is the single instruction \<open>POP\<close>.\<close>

definition vm_pop_empty :: VM where
  "vm_pop_empty = NewVM [OpPop]"

text \<open>A machine about to execute \<open>SHL\<close> with the stack \<open>[a, b]\<close>.\<close>

definition vm_shl :: "int32 \<Rightarrow> int32 \<Rightarrow> VM" where
  "vm_shl a b = (NewVM [OpShl])\<lparr>stack := [a, b]\<rparr>"

text \<open>A machine about to execute \<open>OUT\<close> with the value \<open>v\<close> and the format \<open>f\<close> on its stack.\<close>

definition vm_out :: "int32 \<Rightarrow> int32 \<Rightarrow> VM" where
  "vm_out v f = (NewVM [OpOut])\<lparr>stack := [v, f]\<rparr>"

text \<open>
  Three programs that never halt: \<open>PUSH 0; JMP 4096\<close>, then \<open>CALL 4096\<close>, then
  \<open>PUSH 4096; CALLSTACK\<close>. Address 4096 is where a program is loaded.
\<close>

definition push_loop :: "byte list" where
  "push_loop = [OpPush, 0, 0, 0, 0, OpJmp, 0, 0, 0x10, 0x00]"

definition call_loop :: "byte list" where
  "call_loop = [OpCall, 0, 0, 0x10, 0x00]"

definition callstack_loop :: "byte list" where
  "callstack_loop = [OpPush, 0, 0, 0x10, 0x00, OpCallStack]"

text \<open>
  A state of the compiler with an empty dictionary, no module and no import, at the base
  address 4096: the states that a source without definitions and directives goes through.
\<close>

definition cstate :: "Token list \<Rightarrow> nat \<Rightarrow> byte list \<Rightarrow> Quotation list \<Rightarrow> int32 \<Rightarrow> Compiler" where
  "cstate toks p bc qs ta =
     \<lparr>tokens = toks, cpos = p, bytecode = bc, dictionary = Map.empty, quotations = qs,
      currentModule = [], importMap = Map.empty, baseAddr = 4096, tempAlloc = ta\<rparr>"

text \<open>
  The while example \<open>5 [ 0 > ] [ DUP 1 - ] |:\<close>: its tokens, the main code and the two
  quotations before placement, and the image.
\<close>

definition while_tokens :: "Token list" where
  "while_tokens =
    [\<lparr>Type = TokenNumber, Value = ''5'', Line = 1, Column = 1\<rparr>,
     \<lparr>Type = TokenLBracket, Value = ''['', Line = 1, Column = 3\<rparr>,
     \<lparr>Type = TokenNumber, Value = ''0'', Line = 1, Column = 5\<rparr>,
     \<lparr>Type = TokenWord, Value = ''>'', Line = 1, Column = 7\<rparr>,
     \<lparr>Type = TokenRBracket, Value = '']'', Line = 1, Column = 9\<rparr>,
     \<lparr>Type = TokenLBracket, Value = ''['', Line = 1, Column = 11\<rparr>,
     \<lparr>Type = TokenWord, Value = ''DUP'', Line = 1, Column = 13\<rparr>,
     \<lparr>Type = TokenNumber, Value = ''1'', Line = 1, Column = 17\<rparr>,
     \<lparr>Type = TokenWord, Value = ''-'', Line = 1, Column = 19\<rparr>,
     \<lparr>Type = TokenRBracket, Value = '']'', Line = 1, Column = 21\<rparr>,
     \<lparr>Type = TokenWord, Value = ''|:'', Line = 1, Column = 23\<rparr>,
     \<lparr>Type = TokenEOF, Value = [], Line = 1, Column = 25\<rparr>]"

definition while_main :: "byte list" where
  "while_main =
    [23, 0, 0, 16, 5,  0, 0, 0, 0, 5,  0, 0, 0, 16, 15,  0, 0, 0, 16, 20,
     29, 0, 0, 0, 4,  29, 0, 0, 0, 0,  2,  28, 0, 0, 0, 0,  22,  24, 0, 0, 16, 53,
     28, 0, 0, 0, 4,  22,  23, 0, 0, 16, 30]"

definition while_quotations :: "Quotation list" where
  "while_quotations =
    [\<lparr>Address = 0, EndAddr = 0, Code = [0, 0, 0, 0, 0, 21, 27], TempAddr = 4111\<rparr>,
     \<lparr>Address = 0, EndAddr = 0, Code = [2, 0, 0, 0, 0, 1, 7, 27], TempAddr = 4116\<rparr>]"

definition while_bytes :: "byte list" where
  "while_bytes =
    [23, 0, 0, 16, 5,  0, 0, 0, 0, 5,  0, 0, 0, 16, 58,  0, 0, 0, 16, 65,
     29, 0, 0, 0, 4,  29, 0, 0, 0, 0,  2,  28, 0, 0, 0, 0,  22,  24, 0, 0, 16, 53,
     28, 0, 0, 0, 4,  22,  23, 0, 0, 16, 30,  23, 0, 0, 16, 73,
     0, 0, 0, 0, 0,  21,  27,  2,  0, 0, 0, 0, 1,  7,  27,  31]"

text \<open>
  The source \<open>7 0 /\<close>, which divides by zero: its tokens, its main code and its image; and
  a state of the REPL whose saved stack is \<open>[7]\<close>, from which the line \<open>0 /\<close> gives that source.
\<close>

definition div0_tokens :: "Token list" where
  "div0_tokens =
    [\<lparr>Type = TokenNumber, Value = ''7'', Line = 1, Column = 1\<rparr>,
     \<lparr>Type = TokenNumber, Value = ''0'', Line = 1, Column = 3\<rparr>,
     \<lparr>Type = TokenWord, Value = ''/'', Line = 1, Column = 5\<rparr>,
     \<lparr>Type = TokenEOF, Value = [], Line = 1, Column = 6\<rparr>]"

definition div0_main :: "byte list" where
  "div0_main = [23, 0, 0, 16, 5,  0, 0, 0, 0, 7,  0, 0, 0, 0, 0,  9]"

definition div0_bytes :: "byte list" where
  "div0_bytes = [23, 0, 0, 16, 5,  0, 0, 0, 0, 7,  0, 0, 0, 0, 0,  9,  23, 0, 0, 16, 21,  31]"

definition repl_seven :: REPL where
  "repl_seven = \<lparr>history = [], stack_repl = [7], definitions = []\<rparr>"

text \<open>
  The source \<open>[ ] 4106\<close>, whose number literal is the placeholder of its quotation: its
  tokens, the main code and the quotation before placement, and the image. Then the same
  for the source \<open>[ ] 4107\<close>, whose literal is no placeholder.
\<close>

definition collide_tokens :: "Token list" where
  "collide_tokens =
    [\<lparr>Type = TokenLBracket, Value = ''['', Line = 1, Column = 1\<rparr>,
     \<lparr>Type = TokenRBracket, Value = '']'', Line = 1, Column = 3\<rparr>,
     \<lparr>Type = TokenNumber, Value = ''4106'', Line = 1, Column = 5\<rparr>,
     \<lparr>Type = TokenEOF, Value = [], Line = 1, Column = 9\<rparr>]"

definition collide_main :: "byte list" where
  "collide_main = [23, 0, 0, 16, 5,  0, 0, 0, 16, 10,  0, 0, 0, 16, 10]"

definition collide_quotations :: "Quotation list" where
  "collide_quotations = [\<lparr>Address = 0, EndAddr = 0, Code = [27], TempAddr = 4106\<rparr>]"

definition collide_bytes :: "byte list" where
  "collide_bytes = [23, 0, 0, 16, 5,  0, 0, 0, 16, 20,  0, 0, 0, 16, 20,  23, 0, 0, 16, 21,  27,  31]"

definition intact_tokens :: "Token list" where
  "intact_tokens =
    [\<lparr>Type = TokenLBracket, Value = ''['', Line = 1, Column = 1\<rparr>,
     \<lparr>Type = TokenRBracket, Value = '']'', Line = 1, Column = 3\<rparr>,
     \<lparr>Type = TokenNumber, Value = ''4107'', Line = 1, Column = 5\<rparr>,
     \<lparr>Type = TokenEOF, Value = [], Line = 1, Column = 9\<rparr>]"

definition intact_main :: "byte list" where
  "intact_main = [23, 0, 0, 16, 5,  0, 0, 0, 16, 10,  0, 0, 0, 16, 11]"

definition intact_quotations :: "Quotation list" where
  "intact_quotations = [\<lparr>Address = 0, EndAddr = 0, Code = [27], TempAddr = 4106\<rparr>]"

definition intact_bytes :: "byte list" where
  "intact_bytes = [23, 0, 0, 16, 5,  0, 0, 0, 16, 20,  0, 0, 0, 16, 11,  23, 0, 0, 16, 21,  27,  31]"




text \<open>The tokens of the source \<open>7 ]\<close>, which does not compile.\<close>

definition rbracket_tokens :: "Token list" where
  "rbracket_tokens =
    [\<lparr>Type = TokenNumber, Value = ''7'', Line = 1, Column = 1\<rparr>,
     \<lparr>Type = TokenRBracket, Value = '']'', Line = 1, Column = 3\<rparr>,
     \<lparr>Type = TokenEOF, Value = [], Line = 1, Column = 4\<rparr>]"

section \<open>Properties of the virtual machine\<close>

lemmas opcode_defs =
  OpPush_def OpPop_def OpDup_def OpSwap_def OpRoll_def OpRot_def OpAdd_def OpSub_def
  OpMul_def OpDiv_def OpMod_def OpInc_def OpDec_def OpNeg_def OpAnd_def OpOr_def
  OpXor_def OpNot_def OpShl_def OpEq_def OpLt_def OpGt_def OpCallStack_def OpJmp_def
  OpJz_def OpJnz_def OpCall_def OpRet_def OpLoad_def OpStore_def OpOut_def OpHalt_def

lemma NewVM_simps:
  "stack (NewVM p) = []" "returnStack (NewVM p) = []" "memory (NewVM p) = replicate 4096 0 @ p"
  "pc (NewVM p) = 4096" "running (NewVM p) = True" "userMemoryStart (NewVM p) = 4096"
  "reservedMemorySize (NewVM p) = 4096" "stdout (NewVM p) = []"
  by (simp_all add: NewVM_def ReservedMemorySize_def UserMemoryOffset_def)

subsection \<open>The dispatch, opcode by opcode\<close>

lemma exec_Push: "exec_op OpPush c vm = case_Push vm"
  by (simp add: exec_op_def opcode_defs)

lemma exec_Pop: "exec_op OpPop c vm = case_Pop vm"
  by (simp add: exec_op_def opcode_defs)

lemma exec_Dup: "exec_op OpDup c vm = wrap ''dup'' (Dup vm)"
  by (simp add: exec_op_def opcode_defs)

lemma exec_Swap: "exec_op OpSwap c vm = wrap ''swap'' (Swap vm)"
  by (simp add: exec_op_def opcode_defs)

lemma exec_Roll: "exec_op OpRoll c vm = wrap ''roll'' (Roll vm)"
  by (simp add: exec_op_def opcode_defs)

lemma exec_Rot: "exec_op OpRot c vm = wrap ''rot'' (Rot vm)"
  by (simp add: exec_op_def opcode_defs)

lemma exec_Add: "exec_op OpAdd c vm = wrap ''add'' (Add vm)"
  by (simp add: exec_op_def opcode_defs)

lemma exec_Sub: "exec_op OpSub c vm = wrap ''sub'' (Sub vm)"
  by (simp add: exec_op_def opcode_defs)

lemma exec_Mul: "exec_op OpMul c vm = wrap ''mul'' (Mul vm)"
  by (simp add: exec_op_def opcode_defs)

lemma exec_Div: "exec_op OpDiv c vm = wrap ''div'' (Div vm)"
  by (simp add: exec_op_def opcode_defs)

lemma exec_Mod: "exec_op OpMod c vm = wrap ''mod'' (Mod vm)"
  by (simp add: exec_op_def opcode_defs)

lemma exec_Inc: "exec_op OpInc c vm = wrap ''inc'' (Inc vm)"
  by (simp add: exec_op_def opcode_defs)

lemma exec_Dec: "exec_op OpDec c vm = wrap ''dec'' (Dec vm)"
  by (simp add: exec_op_def opcode_defs)

lemma exec_Neg: "exec_op OpNeg c vm = wrap ''neg'' (Neg vm)"
  by (simp add: exec_op_def opcode_defs)

lemma exec_And: "exec_op OpAnd c vm = wrap ''and'' (And vm)"
  by (simp add: exec_op_def opcode_defs)

lemma exec_Or: "exec_op OpOr c vm = wrap ''or'' (Or vm)"
  by (simp add: exec_op_def opcode_defs)

lemma exec_Xor: "exec_op OpXor c vm = wrap ''xor'' (Xor vm)"
  by (simp add: exec_op_def opcode_defs)

lemma exec_Not: "exec_op OpNot c vm = wrap ''not'' (Not_op vm)"
  by (simp add: exec_op_def opcode_defs)

lemma exec_Shl: "exec_op OpShl c vm = wrap ''shl'' (Shl vm)"
  by (simp add: exec_op_def opcode_defs)

lemma exec_Eq: "exec_op OpEq c vm = wrap ''eq'' (Eq vm)"
  by (simp add: exec_op_def opcode_defs)

lemma exec_Lt: "exec_op OpLt c vm = wrap ''lt'' (Lt vm)"
  by (simp add: exec_op_def opcode_defs)

lemma exec_Gt: "exec_op OpGt c vm = wrap ''gt'' (Gt vm)"
  by (simp add: exec_op_def opcode_defs)

lemma exec_CallStack: "exec_op OpCallStack c vm = case_CallStack vm"
  by (simp add: exec_op_def opcode_defs)

lemma exec_Jmp: "exec_op OpJmp c vm = case_Jmp vm"
  by (simp add: exec_op_def opcode_defs)

lemma exec_Jz: "exec_op OpJz c vm = case_Jz vm"
  by (simp add: exec_op_def opcode_defs)

lemma exec_Jnz: "exec_op OpJnz c vm = case_Jnz vm"
  by (simp add: exec_op_def opcode_defs)

lemma exec_Call: "exec_op OpCall c vm = case_Call vm"
  by (simp add: exec_op_def opcode_defs)

lemma exec_Ret: "exec_op OpRet c vm = case_Ret vm"
  by (simp add: exec_op_def opcode_defs)

lemma exec_Load: "exec_op OpLoad c vm = wrap ''load'' (Load vm)"
  by (simp add: exec_op_def opcode_defs)

lemma exec_Store: "exec_op OpStore c vm = wrap ''store'' (Store vm)"
  by (simp add: exec_op_def opcode_defs)

lemma exec_Out: "exec_op OpOut c vm = wrap ''out'' (Out vm)"
  by (simp add: exec_op_def opcode_defs)

lemma exec_Halt: "exec_op OpHalt c vm = case_Halt vm"
  by (simp add: exec_op_def opcode_defs)

text \<open>The same equations with the opcodes as the bytes they are.\<close>

lemmas exec_byte = exec_Push [unfolded opcode_defs] exec_Pop [unfolded opcode_defs]
  exec_Dup [unfolded opcode_defs] exec_Swap [unfolded opcode_defs]
  exec_Roll [unfolded opcode_defs] exec_Rot [unfolded opcode_defs]
  exec_Add [unfolded opcode_defs] exec_Sub [unfolded opcode_defs]
  exec_Mul [unfolded opcode_defs] exec_Div [unfolded opcode_defs]
  exec_Mod [unfolded opcode_defs] exec_Inc [unfolded opcode_defs]
  exec_Dec [unfolded opcode_defs] exec_Neg [unfolded opcode_defs]
  exec_And [unfolded opcode_defs] exec_Or [unfolded opcode_defs]
  exec_Xor [unfolded opcode_defs] exec_Not [unfolded opcode_defs]
  exec_Shl [unfolded opcode_defs] exec_Eq [unfolded opcode_defs] exec_Lt [unfolded opcode_defs]
  exec_Gt [unfolded opcode_defs] exec_CallStack [unfolded opcode_defs]
  exec_Jmp [unfolded opcode_defs] exec_Jz [unfolded opcode_defs]
  exec_Jnz [unfolded opcode_defs] exec_Call [unfolded opcode_defs]
  exec_Ret [unfolded opcode_defs] exec_Load [unfolded opcode_defs]
  exec_Store [unfolded opcode_defs] exec_Out [unfolded opcode_defs]
  exec_Halt [unfolded opcode_defs]

subsection \<open>Popping\<close>

lemma Pop_nonempty: "stack vm \<noteq> [] \<Longrightarrow> Pop vm = ((last (stack vm), None), vm\<lparr>stack := butlast (stack vm)\<rparr>)"
  by (simp add: Pop_def)

lemma pop_then_nonempty: "stack vm \<noteq> [] \<Longrightarrow> pop_then vm k = k (last (stack vm)) (vm\<lparr>stack := butlast (stack vm)\<rparr>)"
  by (simp add: pop_then_def Pop_nonempty)

lemma Div_zero: "2 \<le> length (stack vm) \<Longrightarrow> last (stack vm) = 0 \<Longrightarrow> Div vm = (Some DivisionByZero, vm\<lparr>stack := butlast (stack vm)\<rparr>)"
  by (cases "stack vm = []") (simp_all add: Div_def pop_then_nonempty)

lemma Mod_zero: "2 \<le> length (stack vm) \<Longrightarrow> last (stack vm) = 0 \<Longrightarrow> Mod vm = (Some ModulusByZero, vm\<lparr>stack := butlast (stack vm)\<rparr>)"
  by (cases "stack vm = []") (simp_all add: Mod_def pop_then_nonempty)

lemma butlast_neq: "xs \<noteq> [] \<Longrightarrow> butlast xs \<noteq> xs"
  by (induction xs) auto

lemma last_butlast_nth: "2 \<le> length xs \<Longrightarrow> last (butlast xs) = xs ! (length xs - 2)"
proof -
  assume l: "2 \<le> length xs"
  then have "butlast xs \<noteq> []" by (cases xs rule: rev_cases) auto
  then have "last (butlast xs) = butlast xs ! (length (butlast xs) - 1)" by (rule last_conv_nth)
  also have "\<dots> = xs ! (length (butlast xs) - 1)" using l by (simp add: nth_butlast)
  also have "length (butlast xs) - 1 = length xs - 2" by simp
  finally show ?thesis .
qed

lemma butlast_nonempty: "2 \<le> length xs \<Longrightarrow> butlast xs \<noteq> []"
  by (cases xs rule: rev_cases) auto

subsection \<open>What an operation leaves untouched\<close>

lemma pres_refl: "pres vm (None, vm)"
  by (simp add: pres_def)

lemma pres_Push: "pres vm0 (None, vm) \<Longrightarrow> pres vm0 (Push v vm)"
  by (simp add: pres_def Push_def)

lemma pres_pop_then:
  assumes "pres vm0 (None, vm)" and "\<And>x vm'. pres vm0 (None, vm') \<Longrightarrow> pres vm0 (k x vm')"
  shows "pres vm0 (pop_then vm k)"
proof (cases "length (stack vm) = 0")
  case True
  then show ?thesis using assms(1) by (simp add: pop_then_def Pop_def pres_def)
next
  case False
  have "pres vm0 (None, vm\<lparr>stack := butlast (stack vm)\<rparr>)" using assms(1) by (simp add: pres_def)
  then have "pres vm0 (k (last (stack vm)) (vm\<lparr>stack := butlast (stack vm)\<rparr>))" by (rule assms(2))
  then show ?thesis using False by (simp add: pop_then_def Pop_def)
qed

lemma pres_err: "pres vm0 (None, vm) \<Longrightarrow> pres vm0 (Some e, vm)"
  by (simp add: pres_def)

lemma pres_if: "pres vm0 a \<Longrightarrow> pres vm0 b \<Longrightarrow> pres vm0 (if c then a else b)"
  by simp

lemmas pres_intros = pres_Push pres_pop_then pres_err pres_if

lemma pres_methods:
  assumes "pres vm0 (None, vm)"
  shows "pres vm0 (Dup vm)" "pres vm0 (Swap vm)" "pres vm0 (Roll vm)" "pres vm0 (Rot vm)"
    "pres vm0 (Add vm)" "pres vm0 (Sub vm)" "pres vm0 (Mul vm)" "pres vm0 (Div vm)" "pres vm0 (Mod vm)"
    "pres vm0 (Inc vm)" "pres vm0 (Dec vm)" "pres vm0 (Neg vm)" "pres vm0 (And vm)" "pres vm0 (Or vm)"
    "pres vm0 (Xor vm)" "pres vm0 (Not_op vm)" "pres vm0 (Shl vm)" "pres vm0 (Eq vm)" "pres vm0 (Lt vm)"
    "pres vm0 (Gt vm)"
  unfolding Dup_def Swap_def Roll_def Rot_def Add_def Sub_def Mul_def Div_def Mod_def Inc_def Dec_def
    Neg_def And_def Or_def Xor_def Not_op_def Shl_def Eq_def Lt_def Gt_def Let_def
  using assms
  by (auto intro!: pres_intros) (simp_all add: pres_def)

lemma pres_Load: "pres vm0 (None, vm) \<Longrightarrow> pres vm0 (Load vm)"
  unfolding Load_def Let_def
  by (auto intro!: pres_intros split: option.splits) (simp_all add: pres_def)

lemma pres_Store: "pres vm0 (None, vm) \<Longrightarrow> pres vm0 (Store vm)"
  unfolding Store_def Let_def
  by (auto intro!: pres_intros split: option.splits) (simp_all add: pres_def)

lemma Out_two:
  assumes "2 \<le> length (stack vm)"
  shows "Out vm = (None, vm\<lparr>stack := butlast (butlast (stack vm)),
            stdout := stdout vm @ (if last (stack vm) = 1 then EncodeRune (sint (last (butlast (stack vm))))
                                   else FormatInt (sint (last (butlast (stack vm)))))\<rparr>)"
proof -
  have ne: "stack vm \<noteq> []" using assms by auto
  have ne2: "butlast (stack vm) \<noteq> []" using assms by (rule butlast_nonempty)
  show ?thesis using assms ne ne2
    by (simp add: Out_def Pop_nonempty pop_then_nonempty)
qed

lemma Out_error: "Out vm = (Some e, vm') \<Longrightarrow> vm' = vm \<and> length (stack vm) < 2"
proof (cases "length (stack vm) < 2")
  case True
  assume "Out vm = (Some e, vm')"
  with True show ?thesis by (simp add: Out_def)
next
  case False
  assume a: "Out vm = (Some e, vm')"
  from False have "2 \<le> length (stack vm)" by simp
  from Out_two [OF this] a show ?thesis by simp
qed

lemma pres_Out: "fst (Out vm) \<noteq> None \<Longrightarrow> pres vm (Out vm)"
proof -
  assume "fst (Out vm) \<noteq> None"
  then obtain e vm' where "Out vm = (Some e, vm')" by (cases "Out vm") auto
  then show ?thesis using Out_error by (auto simp: pres_def)
qed

lemma pres_wrap: "pres vm0 r \<Longrightarrow> pres vm0 (wrap n r)"
  by (cases r) (auto simp: wrap_def pres_def split: option.splits)

lemma fst_wrap: "fst (wrap n r) = None \<longleftrightarrow> fst r = None"
  by (cases r) (auto simp: wrap_def split: option.splits)

lemma pres_exec_op:
  assumes "fst (exec_op opc c vm) \<noteq> None"
  shows "pres vm (exec_op opc c vm)"
proof -
  have r: "pres vm (None, vm)" by (rule pres_refl)
  consider "opc = OpPush" | "opc = OpPop" | "opc = OpDup" | "opc = OpSwap" | "opc = OpRoll" | "opc = OpRot" | "opc = OpAdd" | "opc = OpSub" | "opc = OpMul" | "opc = OpDiv" | "opc = OpMod" | "opc = OpInc" | "opc = OpDec" | "opc = OpNeg" | "opc = OpAnd" | "opc = OpOr" | "opc = OpXor" | "opc = OpNot" | "opc = OpShl" | "opc = OpEq" | "opc = OpLt" | "opc = OpGt" | "opc = OpCallStack" | "opc = OpJmp" | "opc = OpJz" | "opc = OpJnz" | "opc = OpCall" | "opc = OpRet" | "opc = OpLoad" | "opc = OpStore" | "opc = OpOut" | "opc = OpHalt"
    | "opc \<noteq> OpPush \<and> opc \<noteq> OpPop \<and> opc \<noteq> OpDup \<and> opc \<noteq> OpSwap \<and> opc \<noteq> OpRoll \<and> opc \<noteq> OpRot \<and> opc \<noteq> OpAdd \<and> opc \<noteq> OpSub \<and> opc \<noteq> OpMul \<and> opc \<noteq> OpDiv \<and> opc \<noteq> OpMod \<and> opc \<noteq> OpInc \<and> opc \<noteq> OpDec \<and> opc \<noteq> OpNeg \<and> opc \<noteq> OpAnd \<and> opc \<noteq> OpOr \<and> opc \<noteq> OpXor \<and> opc \<noteq> OpNot \<and> opc \<noteq> OpShl \<and> opc \<noteq> OpEq \<and> opc \<noteq> OpLt \<and> opc \<noteq> OpGt \<and> opc \<noteq> OpCallStack \<and> opc \<noteq> OpJmp \<and> opc \<noteq> OpJz \<and> opc \<noteq> OpJnz \<and> opc \<noteq> OpCall \<and> opc \<noteq> OpRet \<and> opc \<noteq> OpLoad \<and> opc \<noteq> OpStore \<and> opc \<noteq> OpOut \<and> opc \<noteq> OpHalt"
    by blast
  then show ?thesis
  proof cases
    case 1
    then show ?thesis by (simp add: exec_Push case_Push_def Pop_def pres_def Let_def split: option.splits)
  next
    case 2
    then show ?thesis by (simp add: exec_Pop case_Pop_def Pop_def pres_def Let_def split: option.splits)
  next
    case 3
    then show ?thesis by (simp add: exec_Dup pres_wrap pres_methods [OF r])
  next
    case 4
    then show ?thesis by (simp add: exec_Swap pres_wrap pres_methods [OF r])
  next
    case 5
    then show ?thesis by (simp add: exec_Roll pres_wrap pres_methods [OF r])
  next
    case 6
    then show ?thesis by (simp add: exec_Rot pres_wrap pres_methods [OF r])
  next
    case 7
    then show ?thesis by (simp add: exec_Add pres_wrap pres_methods [OF r])
  next
    case 8
    then show ?thesis by (simp add: exec_Sub pres_wrap pres_methods [OF r])
  next
    case 9
    then show ?thesis by (simp add: exec_Mul pres_wrap pres_methods [OF r])
  next
    case 10
    then show ?thesis by (simp add: exec_Div pres_wrap pres_methods [OF r])
  next
    case 11
    then show ?thesis by (simp add: exec_Mod pres_wrap pres_methods [OF r])
  next
    case 12
    then show ?thesis by (simp add: exec_Inc pres_wrap pres_methods [OF r])
  next
    case 13
    then show ?thesis by (simp add: exec_Dec pres_wrap pres_methods [OF r])
  next
    case 14
    then show ?thesis by (simp add: exec_Neg pres_wrap pres_methods [OF r])
  next
    case 15
    then show ?thesis by (simp add: exec_And pres_wrap pres_methods [OF r])
  next
    case 16
    then show ?thesis by (simp add: exec_Or pres_wrap pres_methods [OF r])
  next
    case 17
    then show ?thesis by (simp add: exec_Xor pres_wrap pres_methods [OF r])
  next
    case 18
    then show ?thesis by (simp add: exec_Not pres_wrap pres_methods [OF r])
  next
    case 19
    then show ?thesis by (simp add: exec_Shl pres_wrap pres_methods [OF r])
  next
    case 20
    then show ?thesis by (simp add: exec_Eq pres_wrap pres_methods [OF r])
  next
    case 21
    then show ?thesis by (simp add: exec_Lt pres_wrap pres_methods [OF r])
  next
    case 22
    then show ?thesis by (simp add: exec_Gt pres_wrap pres_methods [OF r])
  next
    case 23
    then show ?thesis by (simp add: exec_CallStack case_CallStack_def Pop_def pres_def Let_def split: option.splits)
  next
    case 24
    then show ?thesis by (simp add: exec_Jmp case_Jmp_def Pop_def pres_def Let_def split: option.splits)
  next
    case 25
    then show ?thesis by (simp add: exec_Jz case_Jz_def Pop_def pres_def Let_def split: option.splits)
  next
    case 26
    then show ?thesis by (simp add: exec_Jnz case_Jnz_def Pop_def pres_def Let_def split: option.splits)
  next
    case 27
    then show ?thesis by (simp add: exec_Call case_Call_def Pop_def pres_def Let_def split: option.splits)
  next
    case 28
    then show ?thesis by (simp add: exec_Ret case_Ret_def Pop_def pres_def Let_def split: option.splits)
  next
    case 29
    then show ?thesis by (simp add: exec_Load pres_wrap pres_Load [OF r])
  next
    case 30
    then show ?thesis by (simp add: exec_Store pres_wrap pres_Store [OF r])
  next
    case 31
    then show ?thesis using assms by (simp add: exec_Out fst_wrap pres_Out pres_wrap)
  next
    case 32
    then show ?thesis using assms by (simp add: exec_Halt case_Halt_def)
  next
    case 33
    then show ?thesis by (simp add: exec_op_def pres_def)
  qed
qed

text \<open>
  Claim C9. When \<open>DIV\<close> or \<open>MOD\<close> is executed with at least two values on the data
  stack and a zero on top, the instruction traps, and the machine it leaves has the zero
  divisor popped: its data stack is the stack before the instruction without its top
  element (so it differs from that stack), and the dividend is still in place on top.
\<close>

theorem div_mod_zero_trap_pops_divisor:
  assumes "unat (pc vm) < length (memory vm)"
    and "2 \<le> length (stack vm)"
    and "last (stack vm) = 0"
  shows "(memory vm ! unat (pc vm) = OpDiv \<longrightarrow>
           ExecuteInstruction vm =
             (Some (Failed ''div'' DivisionByZero), vm\<lparr>pc := pc vm + 1, stack := butlast (stack vm)\<rparr>)) \<and>
         (memory vm ! unat (pc vm) = OpMod \<longrightarrow>
           ExecuteInstruction vm =
             (Some (Failed ''mod'' ModulusByZero), vm\<lparr>pc := pc vm + 1, stack := butlast (stack vm)\<rparr>)) \<and>
         butlast (stack vm) \<noteq> stack vm \<and>
         last (butlast (stack vm)) = stack vm ! (length (stack vm) - 2)"
proof -
  have ne: "stack vm \<noteq> []" using assms(2) by auto
  have a: "butlast (stack vm) \<noteq> stack vm" using ne by (rule butlast_neq)
  have b: "last (butlast (stack vm)) = stack vm ! (length (stack vm) - 2)"
    using assms(2) by (rule last_butlast_nth)
  have d: "memory vm ! unat (pc vm) = OpDiv \<Longrightarrow> ExecuteInstruction vm =
             (Some (Failed ''div'' DivisionByZero), vm\<lparr>pc := pc vm + 1, stack := butlast (stack vm)\<rparr>)"
    using assms by (simp add: ExecuteInstruction_def exec_Div Div_zero wrap_def)
  have m: "memory vm ! unat (pc vm) = OpMod \<Longrightarrow> ExecuteInstruction vm =
             (Some (Failed ''mod'' ModulusByZero), vm\<lparr>pc := pc vm + 1, stack := butlast (stack vm)\<rparr>)"
    using assms by (simp add: ExecuteInstruction_def exec_Mod Mod_zero wrap_def)
  from a b d m show ?thesis by blast
qed

theorem div_mod_zero_trap_pops_divisor_witness:
  "unat (pc vm_div0) < length (memory vm_div0) \<and> 2 \<le> length (stack vm_div0) \<and> last (stack vm_div0) = 0 \<and>
   memory vm_div0 ! unat (pc vm_div0) = OpDiv \<and>
   fst (ExecuteInstruction vm_div0) = Some (Failed ''div'' DivisionByZero) \<and>
   stack (snd (ExecuteInstruction vm_div0)) = [7]"
proof -
  have h1: "unat (pc vm_div0) < length (memory vm_div0)"
    by (simp add: vm_div0_def NewVM_def ReservedMemorySize_def UserMemoryOffset_def)
  have h2: "2 \<le> length (stack vm_div0)" by (simp add: vm_div0_def)
  have h3: "last (stack vm_div0) = 0" by (simp add: vm_div0_def)
  have h4: "memory vm_div0 ! unat (pc vm_div0) = OpDiv"
    by (simp add: vm_div0_def NewVM_def ReservedMemorySize_def UserMemoryOffset_def nth_append)
  have s: "butlast (stack vm_div0) = [7]" by (simp add: vm_div0_def)
  from div_mod_zero_trap_pops_divisor [OF h1 h2 h3] h4
  have "ExecuteInstruction vm_div0 =
      (Some (Failed ''div'' DivisionByZero), vm_div0\<lparr>pc := pc vm_div0 + 1, stack := butlast (stack vm_div0)\<rparr>)"
    by blast
  with h1 h2 h3 h4 s show ?thesis by simp
qed

subsection \<open>Traps\<close>

text \<open>
  Claim C3, as the code has it. When \<open>ExecuteInstruction\<close> returns an error, the machine it
  leaves has the running flag and the standard output it had before the instruction: a trap
  writes nothing and does not clear the flag (only \<open>HALT\<close> does). \<open>Run\<close>, entered on a
  running machine with its program counter inside the memory, returns that error at once
  with that machine, so that nothing is written after the trapping instruction.
\<close>

theorem trap_keeps_state_and_ends_run:
  assumes "ExecuteInstruction vm = (Some e, vm')"
  shows "running vm' = running vm \<and> stdout vm' = stdout vm \<and>
         (running vm \<and> unat (pc vm) < length (memory vm) \<longrightarrow>
            Run (Suc n) vm = Some (Some (ErrorAtPC (pc vm') e), vm'))"
proof -
  have p: "pres vm (ExecuteInstruction vm)"
  proof (cases "unat (pc vm) \<ge> length (memory vm)")
    case True
    then show ?thesis by (simp add: ExecuteInstruction_def pres_def)
  next
    case False
    let ?vm1 = "vm\<lparr>pc := pc vm + 1\<rparr>"
    from False have e: "ExecuteInstruction vm = exec_op (memory vm ! unat (pc vm)) (pc vm) ?vm1"
      by (simp add: ExecuteInstruction_def Let_def)
    with assms have "fst (exec_op (memory vm ! unat (pc vm)) (pc vm) ?vm1) \<noteq> None" by simp
    then have "pres ?vm1 (exec_op (memory vm ! unat (pc vm)) (pc vm) ?vm1)" by (rule pres_exec_op)
    then show ?thesis unfolding e by (simp add: pres_def)
  qed
  then have a: "running vm' = running vm \<and> stdout vm' = stdout vm" using assms by (simp add: pres_def)
  have b: "running vm \<and> unat (pc vm) < length (memory vm) \<longrightarrow>
            Run (Suc n) vm = Some (Some (ErrorAtPC (pc vm') e), vm')"
    using assms by (simp add: Run.simps)
  from a b show ?thesis by simp
qed

lemma exec_pop_empty: "ExecuteInstruction vm_pop_empty = (Some (Failed ''pop'' StackUnderflow), vm_pop_empty\<lparr>pc := 4097\<rparr>)"
  by (simp add: vm_pop_empty_def ExecuteInstruction_def NewVM_simps nth_append exec_Pop case_Pop_def Pop_def)

text \<open>
  The claim C3 as stated fails: \<open>POP\<close> on the empty stack traps, and the running flag of
  the machine is still set after the trap.
\<close>

theorem trap_running_flag_counterexample:
  "fst (ExecuteInstruction vm_pop_empty) = Some (Failed ''pop'' StackUnderflow) \<and>
   running (snd (ExecuteInstruction vm_pop_empty)) = True"
  by (simp add: exec_pop_empty) (simp add: vm_pop_empty_def NewVM_simps)

theorem trap_keeps_state_and_ends_run_witness:
  "ExecuteInstruction vm_pop_empty = (Some (Failed ''pop'' StackUnderflow), vm_pop_empty\<lparr>pc := 4097\<rparr>) \<and>
   running (vm_pop_empty\<lparr>pc := 4097\<rparr>) = running vm_pop_empty \<and>
   stdout (vm_pop_empty\<lparr>pc := 4097\<rparr>) = stdout vm_pop_empty \<and>
   Run (Suc 0) vm_pop_empty = Some (Some (ErrorAtPC 4097 (Failed ''pop'' StackUnderflow)), vm_pop_empty\<lparr>pc := 4097\<rparr>)"
proof -
  have r: "running vm_pop_empty \<and> unat (pc vm_pop_empty) < length (memory vm_pop_empty)"
    by (simp add: vm_pop_empty_def NewVM_simps)
  from trap_keeps_state_and_ends_run [OF exec_pop_empty, of 0] r exec_pop_empty
  show ?thesis by simp
qed

subsection \<open>Shift left\<close>

lemma unat_word_of_int32: "unat (word_of_int k :: 32 word) = nat (k mod 2 ^ 32)"
  by (simp add: unat_eq_nat_uint uint_word_of_int)

lemma i32_rem_32_unat:
  "unat (i32_rem b 32) =
     (if 0 \<le> sint b then nat (sint b mod 32)
      else if 32 dvd sint b then 0
      else 2 ^ 32 - nat ((- sint b) mod 32))"
proof -
  let ?m = "sint b"
  have r: "unat (i32_rem b 32) = nat ((?m smod 32) mod 2 ^ 32)"
    by (simp add: i32_rem_def unat_word_of_int32)
  show ?thesis
  proof (cases "0 \<le> ?m")
    case True
    then have "?m smod 32 = ?m mod 32" by (simp add: signed_modulo_int_def sgn_if)
    moreover have "(?m mod 32) mod 2 ^ 32 = ?m mod 32" by simp
    ultimately show ?thesis using True r by simp
  next
    case False
    then have s: "?m smod 32 = - ((- ?m) mod 32)" by (simp add: signed_modulo_int_def sgn_if)
    show ?thesis
    proof (cases "32 dvd ?m")
      case True
      then have "(- ?m) mod 32 = 0" by presburger
      then show ?thesis using False True r s by simp
    next
      case nd: False
      let ?r = "(- ?m) mod 32"
      have "?r \<noteq> 0" using nd by presburger
      moreover have "0 \<le> ?r" "?r < 32" by simp_all
      ultimately have "(- ?r) mod 2 ^ 32 = 2 ^ 32 - ?r"
        by (simp add: zmod_zminus1_eq_if)
      then show ?thesis using False nd r s by (simp add: nat_diff_distrib)
    qed
  qed
qed

lemma Shl_two:
  assumes "stack vm = s @ [a, b]" and "length s < MaxStackSize"
  shows "Shl vm = (None, vm\<lparr>stack := s @ [push_bit (unat (i32_rem b 32)) a]\<rparr>)"
proof -
  have b1: "butlast (stack vm) = s @ [a]" using assms(1) by (simp add: butlast_append)
  show ?thesis using assms b1
    by (simp add: Shl_def pop_then_nonempty Push_def)
qed

text \<open>
  Claim C7, as the code has it. \<open>SHL\<close> pops \<open>b\<close>, then \<open>a\<close>, and pushes \<open>a\<close> shifted
  left by \<open>uint32(b % 32)\<close>, where \<open>%\<close> is the remainder that keeps the sign of \<open>b\<close>:
  for \<open>b \<ge> 0\<close> the count is \<open>b mod 32\<close>, between 0 and 31; for a negative multiple of 32 the
  count is 0 and \<open>a\<close> is pushed unchanged; for every other negative \<open>b\<close> the count is at
  least 32 and 0 is pushed.
\<close>

theorem shl_shift_count:
  assumes "stack vm = s @ [a, b]" and "length s < MaxStackSize"
  shows "Shl vm = (None, vm\<lparr>stack := s @
           [if 0 \<le> sint b then push_bit (nat (sint b mod 32)) a
            else if 32 dvd sint b then a else 0]\<rparr>) \<and>
         (0 \<le> sint b \<longrightarrow> nat (sint b mod 32) \<le> 31)"
proof -
  have big: "\<not> 0 \<le> sint b \<Longrightarrow> \<not> 32 dvd sint b \<Longrightarrow> push_bit (unat (i32_rem b 32)) a = 0"
  proof -
    assume n: "\<not> 0 \<le> sint b" "\<not> 32 dvd sint b"
    have "(- sint b) mod 32 < 32" by simp
    then have "nat ((- sint b) mod 32) \<le> 31" by simp
    then have "32 \<le> unat (i32_rem b 32)" using n by (simp add: i32_rem_32_unat)
    then show ?thesis by (simp add: push_bit_word_beyond)
  qed
  have range: "0 \<le> sint b \<longrightarrow> nat (sint b mod 32) \<le> 31"
  proof
    have "sint b mod 32 < 32" by simp
    then show "nat (sint b mod 32) \<le> 31" by simp
  qed
  show ?thesis using Shl_two [OF assms] big range
    by (simp add: i32_rem_32_unat)
qed

theorem shl_shift_count_witness:
  "stack (vm_shl 5 34) = [] @ [5, 34] \<and> length ([] :: int32 list) < MaxStackSize \<and>
   Shl (vm_shl 5 34) = (None, (vm_shl 5 34)\<lparr>stack := [20]\<rparr>)"
proof -
  have h1: "stack (vm_shl 5 34) = [] @ [5, 34]" by (simp add: vm_shl_def)
  have h2: "length ([] :: int32 list) < MaxStackSize" by (simp add: MaxStackSize_def)
  have "sint (34 :: int32) = 34" by simp
  then have "(if 0 \<le> sint (34 :: int32) then push_bit (nat (sint (34 :: int32) mod 32)) (5 :: int32)
            else if 32 dvd sint (34 :: int32) then 5 else 0) = 20" by simp
  with shl_shift_count [OF h1 h2] h1 h2 show ?thesis by simp
qed

text \<open>
  The claim C7 as stated fails for a negative count: with \<open>a = 1\<close> and \<open>b = -1\<close> the
  machine pushes 0, while \<open>b mod 32\<close> taken in \<open>0..31\<close> is 31 and \<open>1\<close> shifted left by 31
  is not 0.
\<close>

theorem shl_negative_count_counterexample:
  "Shl (vm_shl 1 (- 1)) = (None, (vm_shl 1 (- 1))\<lparr>stack := [0]\<rparr>) \<and>
   nat (sint (- 1 :: int32) mod 32) = 31 \<and>
   push_bit (nat (sint (- 1 :: int32) mod 32)) (1 :: int32) \<noteq> 0"
proof -
  have h1: "stack (vm_shl 1 (- 1)) = [] @ [1, - 1]" by (simp add: vm_shl_def)
  have h2: "length ([] :: int32 list) < MaxStackSize" by (simp add: MaxStackSize_def)
  have u: "unat (i32_rem (- 1) 32) = 2 ^ 32 - 1" by (simp add: i32_rem_32_unat)
  have z: "push_bit (unat (i32_rem (- 1) 32)) (1 :: int32) = 0"
    by (rule push_bit_word_beyond) (simp add: u)
  have a: "Shl (vm_shl 1 (- 1)) = (None, (vm_shl 1 (- 1))\<lparr>stack := [0]\<rparr>)"
    using Shl_two [OF h1 h2] z by simp
  have b: "nat (sint (- 1 :: int32) mod 32) = 31" by simp
  have c: "push_bit 31 (1 :: int32) \<noteq> 0" by simp
  from a b c show ?thesis by simp
qed

subsection \<open>Output\<close>

lemma of_char_digit: "d < 10 \<Longrightarrow> of_char (char_of (48 + d :: nat)) = 48 + d"
  by (simp add: of_char_of)

lemma decimal_nat_digits: "set (decimal_nat n) \<subseteq> char_of ` {48 ..< 58 :: nat}"
proof (induction n rule: decimal_nat.induct)
  case (1 n)
  show ?case
  proof (cases "n < 10")
    case True
    then show ?thesis by (subst decimal_nat.simps) auto
  next
    case False
    have "n mod 10 < 10" by simp
    then have "char_of (48 + n mod 10) \<in> char_of ` {48 ..< 58 :: nat}" by (intro imageI) simp
    with False 1 show ?thesis by (subst decimal_nat.simps) auto
  qed
qed

lemma decimal_nat_value: "digits_value (decimal_nat n) = n"
proof (induction n rule: decimal_nat.induct)
  case (1 n)
  show ?case
  proof (cases "n < 10")
    case True
    then show ?thesis by (subst decimal_nat.simps) (simp add: digits_value_def of_char_digit)
  next
    case False
    have m: "n mod 10 < 10" by simp
    from False 1 have ih: "digits_value (decimal_nat (n div 10)) = n div 10" by simp
    have "digits_value (decimal_nat n) = 10 * digits_value (decimal_nat (n div 10)) + n mod 10"
      using False by (subst decimal_nat.simps) (simp add: digits_value_def of_char_digit [OF m])
    then show ?thesis using ih by simp
  qed
qed

lemma EncodeRune_ascii: "0 \<le> i \<Longrightarrow> i < 128 \<Longrightarrow> EncodeRune i = [char_of (nat i)]"
  by (simp add: EncodeRune_def Let_def)

text \<open>
  Claim C6, as the code has it. \<open>OUT\<close> traps, leaving the machine as it is, when fewer
  than two values are on the data stack. Otherwise it pops the format, then the value.
  With format 1 it writes the value as a code point in UTF-8 (\<open>%c\<close>), which is the single
  byte of that value when the value is between 0 and 127; with any other format, 0
  included, it writes the decimal digits of the value, preceded by a minus sign when the
  value is negative and by nothing else.
\<close>

theorem out_behaviour:
  "(length (stack vm) < 2 \<longrightarrow> Out vm = (Some (NeedValues 2 ''OUT''), vm)) \<and>
   (stack vm = s @ [v, f] \<longrightarrow>
      Out vm = (None, vm\<lparr>stack := s,
                 stdout := stdout vm @ (if f = 1 then EncodeRune (sint v) else FormatInt (sint v))\<rparr>)) \<and>
   (0 \<le> sint v \<and> sint v < 128 \<longrightarrow> EncodeRune (sint v) = [char_of (nat (sint v))]) \<and>
   FormatInt (sint v) = (if sint v < 0 then CHR ''-'' # decimal_nat (nat (- sint v)) else decimal_nat (nat (sint v))) \<and>
   digits_value (decimal_nat n) = n \<and> set (decimal_nat n) \<subseteq> char_of ` {48 ..< 58 :: nat}"
proof -
  have a: "length (stack vm) < 2 \<longrightarrow> Out vm = (Some (NeedValues 2 ''OUT''), vm)"
    by (simp add: Out_def)
  have b: "stack vm = s @ [v, f] \<longrightarrow>
      Out vm = (None, vm\<lparr>stack := s,
                 stdout := stdout vm @ (if f = 1 then EncodeRune (sint v) else FormatInt (sint v))\<rparr>)"
  proof
    assume s: "stack vm = s @ [v, f]"
    then have l: "2 \<le> length (stack vm)" by simp
    show "Out vm = (None, vm\<lparr>stack := s,
                 stdout := stdout vm @ (if f = 1 then EncodeRune (sint v) else FormatInt (sint v))\<rparr>)"
      using Out_two [OF l] by (simp add: s butlast_append)
  qed
  have c: "0 \<le> sint v \<and> sint v < 128 \<longrightarrow> EncodeRune (sint v) = [char_of (nat (sint v))]"
    by (simp add: EncodeRune_ascii)
  from a b c show ?thesis
    by (simp add: FormatInt_def decimal_nat_value decimal_nat_digits)
qed

theorem out_behaviour_witness:
  "stack (vm_out 72 1) = [] @ [72, 1] \<and> 0 \<le> sint (72 :: int32) \<and> sint (72 :: int32) < 128 \<and>
   Out (vm_out 72 1) = (None, (vm_out 72 1)\<lparr>stack := [], stdout := ''H''\<rparr>) \<and>
   length (stack ((vm_out 72 1)\<lparr>stack := [72]\<rparr>)) < 2 \<and>
   Out ((vm_out 72 1)\<lparr>stack := [72]\<rparr>) = (Some (NeedValues 2 ''OUT''), (vm_out 72 1)\<lparr>stack := [72]\<rparr>)"
proof -
  have h1: "stack (vm_out 72 1) = [] @ [72, 1]" by (simp add: vm_out_def)
  have h2: "0 \<le> sint (72 :: int32) \<and> sint (72 :: int32) < 128" by simp
  have h3: "length (stack ((vm_out 72 1)\<lparr>stack := [72]\<rparr>)) < 2" by simp
  have e: "stdout (vm_out 72 1) = []" by (simp add: vm_out_def NewVM_simps)
  have "char_of (72 :: nat) = CHR ''H''" by code_simp
  then have c: "[char_of (nat (sint (72 :: int32)))] = ''H''" by simp
  from out_behaviour [of "vm_out 72 1" "[]" 72 1 0] h1 h2 e c
  have o: "Out (vm_out 72 1) = (None, (vm_out 72 1)\<lparr>stack := [], stdout := ''H''\<rparr>)" by simp
  from out_behaviour [of "(vm_out 72 1)\<lparr>stack := [72]\<rparr>" "[]" 72 1 0] h3
  have u: "Out ((vm_out 72 1)\<lparr>stack := [72]\<rparr>) = (Some (NeedValues 2 ''OUT''), (vm_out 72 1)\<lparr>stack := [72]\<rparr>)"
    by blast
  from h1 h2 h3 o u show ?thesis by blast
qed

text \<open>
  The claim C6 as stated fails for format 1: 65 and 321 have the same low byte, yet
  \<open>OUT\<close> writes the one byte \<open>A\<close> for 65 and the two bytes \<open>C5 81\<close> for 321.
\<close>

theorem out_char_low_byte_counterexample:
  "(ucast (321 :: int32) :: byte) = ucast (65 :: int32) \<and>
   stdout (snd (Out (vm_out 65 1))) = ''A'' \<and>
   stdout (snd (Out (vm_out 321 1))) = [CHR 0xC5, CHR 0x81]"
proof -
  have l: "2 \<le> length (stack (vm_out 65 1))" "2 \<le> length (stack (vm_out 321 1))"
    by (simp_all add: vm_out_def)
  have ch: "char_of (65 :: nat) = CHR ''A''" "char_of (197 :: nat) = CHR 0xC5" "char_of (129 :: nat) = CHR 0x81"
    by code_simp+
  have a: "stdout (snd (Out (vm_out 65 1))) = ''A''"
    by (simp add: Out_two [OF l(1)]) (simp add: vm_out_def NewVM_simps EncodeRune_def ch)
  have b: "stdout (snd (Out (vm_out 321 1))) = [CHR 0xC5, CHR 0x81]"
    by (simp add: Out_two [OF l(2)]) (simp add: vm_out_def NewVM_simps EncodeRune_def ch)
  have c: "(ucast (321 :: int32) :: byte) = ucast (65 :: int32)" by simp
  from a b c show ?thesis by simp
qed

subsection \<open>The bounds of the two stacks\<close>

lemma exec_n_add:
  "exec_n (m + n) vm = (case exec_n m vm of (Some e, vm') \<Rightarrow> (Some e, vm') | (None, vm') \<Rightarrow> exec_n n vm')"
  by (induction m arbitrary: vm) (auto split: prod.splits option.splits)

lemma exec_n_1: "exec_n (Suc 0) vm = (case ExecuteInstruction vm of (Some e, vm') \<Rightarrow> (Some e, vm') | (None, vm') \<Rightarrow> (None, vm'))"
  by (simp split: prod.splits option.splits)

lemma push_loop_step1:
  "ExecuteInstruction ((NewVM push_loop)\<lparr>stack := s\<rparr>) =
     (None, (NewVM push_loop)\<lparr>stack := s @ [0], pc := 4101\<rparr>)"
  by (simp add: ExecuteInstruction_def NewVM_simps nth_append push_loop_def exec_byte case_Push_def
        operand_def slice_def BigEndianUint32_def opcode_defs)

lemma push_loop_step2:
  "ExecuteInstruction ((NewVM push_loop)\<lparr>stack := s, pc := 4101\<rparr>) =
     (None, (NewVM push_loop)\<lparr>stack := s\<rparr>)"
  by (simp add: ExecuteInstruction_def NewVM_simps nth_append push_loop_def exec_byte case_Jmp_def
        operand_def slice_def BigEndianUint32_def opcode_defs)

lemma push_loop_even:
  "exec_n (2 * n) (NewVM push_loop) = (None, (NewVM push_loop)\<lparr>stack := replicate n 0\<rparr>)"
proof (induction n)
  case 0
  show ?case by (simp add: NewVM_def)
next
  case (Suc n)
  have "exec_n (2 * Suc n) (NewVM push_loop) = exec_n (2 * n + (Suc 0 + Suc 0)) (NewVM push_loop)"
    by simp
  also have "\<dots> = exec_n (Suc 0 + Suc 0) ((NewVM push_loop)\<lparr>stack := replicate n 0\<rparr>)"
    by (simp only: exec_n_add [of "2 * n"] Suc.IH) simp
  also have "\<dots> = (None, (NewVM push_loop)\<lparr>stack := replicate n 0 @ [0]\<rparr>)"
    by (simp only: exec_n_add [of "Suc 0"] exec_n_1 push_loop_step1) (simp add: push_loop_step2)
  finally show ?case by (simp add: replicate_append_same)
qed

text \<open>
  Claim C2 does not hold of the code. The \<open>PUSH\<close> case of the dispatch appends to the data
  stack without the test that the method \<open>Push\<close> makes: the program \<open>PUSH 0; JMP 4096\<close>,
  started on a fresh machine, has executed 16385 instructions without a trap when its data
  stack holds 8193 values, one more than the bound.
\<close>

theorem push_beyond_bound_not_trapped:
  "fst (exec_n 16385 (NewVM push_loop)) = None \<and>
   length (stack (snd (exec_n 16385 (NewVM push_loop)))) = 8193 \<and>
   MaxStackSize = 8192"
proof -
  have "exec_n 16385 (NewVM push_loop) = exec_n (2 * 8192 + Suc 0) (NewVM push_loop)" by simp
  also have "\<dots> = exec_n (Suc 0) ((NewVM push_loop)\<lparr>stack := replicate 8192 0\<rparr>)"
    by (simp only: exec_n_add [of "2 * 8192"] push_loop_even) simp
  also have "\<dots> = (None, (NewVM push_loop)\<lparr>stack := replicate 8192 0 @ [0], pc := 4101\<rparr>)"
    by (simp only: exec_n_1 push_loop_step1) simp
  finally show ?thesis by (simp add: MaxStackSize_def)
qed

lemma call_loop_step:
  "ExecuteInstruction ((NewVM call_loop)\<lparr>returnStack := s\<rparr>) =
     (None, (NewVM call_loop)\<lparr>returnStack := s @ [4101]\<rparr>)"
  by (simp add: ExecuteInstruction_def NewVM_simps nth_append call_loop_def exec_byte case_Call_def
        operand_def slice_def BigEndianUint32_def opcode_defs)

lemma call_loop_n:
  "exec_n n (NewVM call_loop) = (None, (NewVM call_loop)\<lparr>returnStack := replicate n 4101\<rparr>)"
proof (induction n)
  case 0
  show ?case by (simp add: NewVM_def)
next
  case (Suc n)
  have "exec_n (Suc n) (NewVM call_loop) = exec_n (n + Suc 0) (NewVM call_loop)" by simp
  also have "\<dots> = exec_n (Suc 0) ((NewVM call_loop)\<lparr>returnStack := replicate n 4101\<rparr>)"
    by (simp only: exec_n_add [of n] Suc.IH) simp
  also have "\<dots> = (None, (NewVM call_loop)\<lparr>returnStack := replicate n 4101 @ [4101]\<rparr>)"
    by (simp only: exec_n_1 call_loop_step) simp
  finally show ?case by (simp add: replicate_append_same)
qed

lemma callstack_loop_step1:
  "ExecuteInstruction ((NewVM callstack_loop)\<lparr>returnStack := s\<rparr>) =
     (None, (NewVM callstack_loop)\<lparr>returnStack := s, stack := [4096], pc := 4101\<rparr>)"
  by (simp add: ExecuteInstruction_def NewVM_simps nth_append callstack_loop_def exec_byte case_Push_def
        operand_def slice_def BigEndianUint32_def opcode_defs)

lemma callstack_loop_step2:
  "length s < 8192 \<Longrightarrow>
   ExecuteInstruction ((NewVM callstack_loop)\<lparr>returnStack := s, stack := [4096], pc := 4101\<rparr>) =
     (None, (NewVM callstack_loop)\<lparr>returnStack := s @ [4102]\<rparr>)"
  by (simp add: ExecuteInstruction_def NewVM_simps nth_append callstack_loop_def exec_byte
        case_CallStack_def Pop_def MaxStackSize_def opcode_defs)

lemma callstack_loop_even:
  "n \<le> 8192 \<Longrightarrow>
   exec_n (2 * n) (NewVM callstack_loop) = (None, (NewVM callstack_loop)\<lparr>returnStack := replicate n 4102\<rparr>)"
proof (induction n)
  case 0
  show ?case by (simp add: NewVM_def)
next
  case (Suc n)
  then have l: "length (replicate n (4102 :: int32)) < 8192" by simp
  have "exec_n (2 * Suc n) (NewVM callstack_loop) = exec_n (2 * n + (Suc 0 + Suc 0)) (NewVM callstack_loop)"
    by simp
  also have "\<dots> = exec_n (Suc 0 + Suc 0) ((NewVM callstack_loop)\<lparr>returnStack := replicate n 4102\<rparr>)"
    using Suc by (simp only: exec_n_add [of "2 * n"]) simp
  also have "\<dots> = (None, (NewVM callstack_loop)\<lparr>returnStack := replicate n 4102 @ [4102]\<rparr>)"
    by (simp only: exec_n_add [of "Suc 0"] exec_n_1 callstack_loop_step1)
       (simp add: callstack_loop_step2 [OF l])
  finally show ?case by (simp add: replicate_append_same)
qed

text \<open>
  Claim C1 does not hold of the code. The \<open>CALL\<close> case of the dispatch has no test of the
  return stack, and the \<open>CALLSTACK\<close> case tests it against the bound of the data stack,
  8192: the programs \<open>CALL 4096\<close> and \<open>PUSH 4096; CALLSTACK\<close>, started on a fresh machine,
  reach a return stack of 1025 entries without a trap.
\<close>

theorem call_beyond_return_bound_not_trapped:
  "fst (exec_n 1025 (NewVM call_loop)) = None \<and>
   length (returnStack (snd (exec_n 1025 (NewVM call_loop)))) = 1025 \<and>
   fst (exec_n 2050 (NewVM callstack_loop)) = None \<and>
   length (returnStack (snd (exec_n 2050 (NewVM callstack_loop)))) = 1025 \<and>
   MaxReturnStackSize = 1024"
proof -
  have "exec_n 2050 (NewVM callstack_loop) = exec_n (2 * 1025) (NewVM callstack_loop)" by simp
  also have "\<dots> = (None, (NewVM callstack_loop)\<lparr>returnStack := replicate 1025 4102\<rparr>)"
    by (rule callstack_loop_even) simp
  finally show ?thesis by (simp add: call_loop_n MaxReturnStackSize_def)
qed

section \<open>Properties of the compiler\<close>

subsection \<open>Evaluating the compiler and the machine on a given program\<close>

lemma cbind_weak_cong: "m = m' \<Longrightarrow> cbind m k = cbind m' k"
  by simp

lemmas first_pass_num = first_pass.simps(2) [where fuel = "pred_numeral k", folded numeral_eq_Suc] for k
lemmas second_pass_num = second_pass.simps(2) [where fuel = "pred_numeral k", folded numeral_eq_Suc] for k
lemmas word_loop_num = word_loop.simps(2) [where fuel = "pred_numeral k", folded numeral_eq_Suc] for k
lemmas compileQuotationGen_num =
  compileQuotationGen.simps(2) [where fuel = "pred_numeral k", folded numeral_eq_Suc] for k
lemmas quotation_loop_num =
  quotation_loop.simps(2) [where fuel = "pred_numeral k", folded numeral_eq_Suc] for k

lemmas fuel_simps =
  first_pass_num second_pass_num word_loop_num compileQuotationGen_num quotation_loop_num

lemmas compile_defs = emit_def patch32_def put4_def
  EncodeInt32_def currentAddress_def currentOffset_def cpeek_def cadvance_def compileToken_def
  ParseNumber_def ParseInt32_def digit_val_def HasPrefix_def resolveWord_def
  ToUpper_def char_of_def bit_Suc_0_iff skipWordDefinition_def skip_loop.simps
  combinators_def builtins_def compileCombinator_def compileWhile_def allocTemp_def
  compileQuotation_def compileQuotationToken_def appendCode_def cbind_def ok_def fail_def
  Let_def ReservedMemorySize_def

lemma cstate_simps:
  "cpos (cstate toks p bc qs ta) = p" "tokens (cstate toks p bc qs ta) = toks"
  "bytecode (cstate toks p bc qs ta) = bc" "baseAddr (cstate toks p bc qs ta) = 4096"
  "(cstate toks p bc qs ta)\<lparr>cpos := p'\<rparr> = cstate toks p' bc qs ta"
  "(cstate toks p bc qs ta)\<lparr>bytecode := bc'\<rparr> = cstate toks p bc' qs ta"
  by (simp_all add: cstate_def)

lemma compile_start:
  "emit [0, 0, 0, 0] (emit [OpJmp] (NewCompiler toks)) = cstate toks 0 [23, 0, 0, 0, 0] [] 0"
  by (simp add: emit_def NewCompiler_def cstate_def opcode_defs)

lemma compile_main_start:
  "patch32 (Suc 0) (currentAddress (cstate toks p [23, 0, 0, 0, 0] [] 0)) (cstate toks p [23, 0, 0, 0, 0] [] 0)
     = cstate toks p [23, 0, 0, 16, 5] [] 0"
proof -
  have w: "(4101 :: byte) = 5" by simp
  show ?thesis
    by (simp add: patch32_def currentAddress_def put4_def EncodeInt32_def cstate_simps w)
qed

lemma Run_step:
  "running vm \<Longrightarrow> unat (pc vm) < length (memory vm) \<Longrightarrow> fst (ExecuteInstruction vm) = None \<Longrightarrow>
   Run (Suc n) vm = Run n (snd (ExecuteInstruction vm))"
  by (subst Run.simps) (cases "ExecuteInstruction vm"; simp)

lemma Run_stop: "\<not> running vm \<Longrightarrow> Run n vm = Some (None, vm)"
  by (subst Run.simps) simp

lemma Run_trap:
  "running vm \<Longrightarrow> unat (pc vm) < length (memory vm) \<Longrightarrow> fst (ExecuteInstruction vm) \<noteq> None \<Longrightarrow>
   Run (Suc n) vm =
     Some (Some (ErrorAtPC (pc (snd (ExecuteInstruction vm))) (the (fst (ExecuteInstruction vm)))),
           snd (ExecuteInstruction vm))"
  by (subst Run.simps) (cases "ExecuteInstruction vm"; auto)

lemmas Run_trap_num = Run_trap [where n = "pred_numeral k", folded numeral_eq_Suc] for k

lemmas Run_num = Run_step [where n = "pred_numeral k", folded numeral_eq_Suc] for k

lemmas step_defs = ExecuteInstruction_def exec_byte case_Push_def case_Jmp_def case_Jz_def
  case_CallStack_def case_Ret_def case_Halt_def Dup_def Load_def Store_def Gt_def Sub_def
  Push_def Pop_def pop_then_def wrap_def operand_def slice_def BigEndianUint32_def put4_def
  EncodeInt32_def MaxStackSize_def nth_append nth_list_update Let_def

subsection \<open>The while example\<close>

lemma while_Tokenize: "Tokenize ''5 [ 0 > ] [ DUP 1 - ] |:'' = Inr while_tokens"
  unfolding while_tokens_def by code_simp

lemma while_first_pass:
  "first_pass 50 0 24 (cstate while_tokens 0 [23, 0, 0, 0, 0] [] 0) =
     ok (cstate while_tokens 11 [23, 0, 0, 0, 0] [] 0)"
  by (simp add: cstate_def fuel_simps while_tokens_def compile_defs opcode_defs cong: cbind_weak_cong)

lemma while_second_pass:
  "second_pass 50 (cstate while_tokens 0 [23, 0, 0, 16, 5] [] 0) =
     ok (cstate while_tokens 11 while_main while_quotations 8)"
  by (simp add: cstate_def while_main_def while_quotations_def fuel_simps while_tokens_def
        compile_defs opcode_defs cong: cbind_weak_cong)

lemma while_finish: "finish (cstate while_tokens 11 while_main while_quotations 8) = while_bytes"
  apply (simp add: cstate_def while_main_def while_quotations_def finish_def emit_def
           currentAddress_def Let_def place_loop.simps cong: let_weak_cong)
  apply (simp add: patchRange.simps patchAt_def BigEndianUint32_def put4_def EncodeInt32_def
           opcode_defs cong: let_weak_cong)
  apply (simp add: patch_quotations.simps patchRange.simps patchAt_def BigEndianUint32_def
           put4_def EncodeInt32_def opcode_defs cong: let_weak_cong)
  apply (simp add: patch32_def put4_def EncodeInt32_def currentAddress_def while_bytes_def)
  done

lemma while_compile: "compile 50 (NewCompiler while_tokens) = ok while_bytes"
proof -
  have n: "length while_tokens = 12" by (simp add: while_tokens_def)
  show ?thesis
    unfolding compile_def Let_def compile_start
    by (simp add: cstate_simps n while_first_pass compile_main_start while_second_pass
          while_finish cbind_def ok_def NewCompiler_def)
qed

lemma while_Compile: "Compile 50 ''5 [ 0 > ] [ DUP 1 - ] |:'' = Some (Inr while_bytes)"
  by (simp add: Compile_def while_Tokenize while_compile [unfolded ok_def])

lemma while_Run:
  "\<exists>vm'. Run 100 (NewVM while_bytes) = Some (None, vm') \<and> stack vm' = [5, 4, 3, 2, 1, 0] \<and>
     \<not> running vm'"
  by (simp add: NewVM_def ReservedMemorySize_def UserMemoryOffset_def while_bytes_def
        Run_num Run_stop step_defs)

text \<open>
  Claim C5. The source \<open>5 [ 0 > ] [ DUP 1 - ] |:\<close> compiles, and \<open>Run\<close> on a fresh machine
  loaded with the image returns without an error, the machine halted, with the data stack
  \<open>[5, 4, 3, 2, 1, 0]\<close> from bottom to top.
\<close>

theorem while_example_stack:
  "\<exists>bytes vm'. Compile 50 ''5 [ 0 > ] [ DUP 1 - ] |:'' = Some (Inr bytes) \<and>
     Run 100 (NewVM bytes) = Some (None, vm') \<and> stack vm' = [5, 4, 3, 2, 1, 0] \<and> \<not> running vm'"
  using while_Compile while_Run by blast

subsection \<open>A number literal equal to the placeholder of a quotation\<close>

lemma collide_Tokenize: "Tokenize ''[ ] 4106'' = Inr collide_tokens"
  unfolding collide_tokens_def by code_simp

lemma collide_first_pass:
  "first_pass 50 0 8 (cstate collide_tokens 0 [23, 0, 0, 0, 0] [] 0) =
     ok (cstate collide_tokens 3 [23, 0, 0, 0, 0] [] 0)"
  by (simp add: cstate_def fuel_simps collide_tokens_def compile_defs opcode_defs cong: cbind_weak_cong)

lemma collide_second_pass:
  "second_pass 50 (cstate collide_tokens 0 [23, 0, 0, 16, 5] [] 0) =
     ok (cstate collide_tokens 3 collide_main collide_quotations 0)"
proof -
  have w: "(4106 :: byte) = 10" by simp
  show ?thesis
    by (simp add: cstate_def collide_main_def collide_quotations_def fuel_simps collide_tokens_def
        compile_defs opcode_defs w cong: cbind_weak_cong)
qed

lemma collide_finish: "finish (cstate collide_tokens 3 collide_main collide_quotations 0) = collide_bytes"
  apply (simp add: cstate_def collide_main_def collide_quotations_def finish_def emit_def
           currentAddress_def Let_def place_loop.simps cong: let_weak_cong)
  apply (simp add: patchRange.simps patchAt_def BigEndianUint32_def put4_def EncodeInt32_def
           opcode_defs cong: let_weak_cong)
  apply (simp add: patch_quotations.simps patchRange.simps patchAt_def BigEndianUint32_def
           put4_def EncodeInt32_def opcode_defs cong: let_weak_cong)
  apply (simp add: patch32_def put4_def EncodeInt32_def currentAddress_def collide_bytes_def)
  done

lemma collide_compile: "compile 50 (NewCompiler collide_tokens) = ok collide_bytes"
proof -
  have n: "length collide_tokens = 4" by (simp add: collide_tokens_def)
  show ?thesis
    unfolding compile_def Let_def compile_start
    by (simp add: cstate_simps n collide_first_pass compile_main_start collide_second_pass
          collide_finish cbind_def ok_def NewCompiler_def)
qed

lemma collide_Compile: "Compile 50 ''[ ] 4106'' = Some (Inr collide_bytes)"
  by (simp add: Compile_def collide_Tokenize collide_compile [unfolded ok_def])

lemma collide_Run:
  "\<exists>vm'. Run 50 (NewVM collide_bytes) = Some (None, vm') \<and> stack vm' = [4116, 4116]"
  by (simp add: NewVM_def ReservedMemorySize_def UserMemoryOffset_def collide_bytes_def
        Run_num Run_stop step_defs)

lemma intact_Tokenize: "Tokenize ''[ ] 4107'' = Inr intact_tokens"
  unfolding intact_tokens_def by code_simp

lemma intact_first_pass:
  "first_pass 50 0 8 (cstate intact_tokens 0 [23, 0, 0, 0, 0] [] 0) =
     ok (cstate intact_tokens 3 [23, 0, 0, 0, 0] [] 0)"
  by (simp add: cstate_def fuel_simps intact_tokens_def compile_defs opcode_defs cong: cbind_weak_cong)

lemma intact_second_pass:
  "second_pass 50 (cstate intact_tokens 0 [23, 0, 0, 16, 5] [] 0) =
     ok (cstate intact_tokens 3 intact_main intact_quotations 0)"
proof -
  have w: "(4106 :: byte) = 10" "(4107 :: byte) = 11" by simp_all
  show ?thesis
    by (simp add: cstate_def intact_main_def intact_quotations_def fuel_simps intact_tokens_def
        compile_defs opcode_defs w cong: cbind_weak_cong)
qed

lemma intact_finish: "finish (cstate intact_tokens 3 intact_main intact_quotations 0) = intact_bytes"
  apply (simp add: cstate_def intact_main_def intact_quotations_def finish_def emit_def
           currentAddress_def Let_def place_loop.simps cong: let_weak_cong)
  apply (simp add: patchRange.simps patchAt_def BigEndianUint32_def put4_def EncodeInt32_def
           opcode_defs cong: let_weak_cong)
  apply (simp add: patch_quotations.simps patchRange.simps patchAt_def BigEndianUint32_def
           put4_def EncodeInt32_def opcode_defs cong: let_weak_cong)
  apply (simp add: patch32_def put4_def EncodeInt32_def currentAddress_def intact_bytes_def)
  done

lemma intact_compile: "compile 50 (NewCompiler intact_tokens) = ok intact_bytes"
proof -
  have n: "length intact_tokens = 4" by (simp add: intact_tokens_def)
  show ?thesis
    unfolding compile_def Let_def compile_start
    by (simp add: cstate_simps n intact_first_pass compile_main_start intact_second_pass
          intact_finish cbind_def ok_def NewCompiler_def)
qed

lemma intact_Compile: "Compile 50 ''[ ] 4107'' = Some (Inr intact_bytes)"
  by (simp add: Compile_def intact_Tokenize intact_compile [unfolded ok_def])

lemma intact_Run:
  "\<exists>vm'. Run 50 (NewVM intact_bytes) = Some (None, vm') \<and> stack vm' = [4116, 4107]"
  by (simp add: NewVM_def ReservedMemorySize_def UserMemoryOffset_def intact_bytes_def
        Run_num Run_stop step_defs)

text \<open>
  Claim C4 does not hold of the code. In the source \<open>[ ] 4106\<close> the quotation gets the
  placeholder 4106, the address that follows its own \<open>PUSH\<close>, and the number literal is
  4106 as well. The main code holds \<open>PUSH 4106\<close> for the literal at offset 10; the patching
  scan, which is meant for the \<open>PUSH\<close> instructions that refer to quotations, rewrites the
  operand of the literal too, to the real address 4116 of the quotation, and the program
  leaves \<open>[4116, 4116]\<close> on the stack. The same source with the literal 4107 keeps its
  literal and leaves \<open>[4116, 4107]\<close>.
\<close>

theorem literal_equal_to_placeholder_rewritten:
  "TempAddr (collide_quotations ! 0) = 4106 \<and>
   second_pass 50 (cstate collide_tokens 0 [23, 0, 0, 16, 5] [] 0) =
     ok (cstate collide_tokens 3 collide_main collide_quotations 0) \<and>
   take 5 (drop 10 collide_main) = OpPush # EncodeInt32 4106 \<and>
   Compile 50 ''[ ] 4106'' = Some (Inr collide_bytes) \<and>
   take 5 (drop 10 collide_bytes) = OpPush # EncodeInt32 4116 \<and>
   EncodeInt32 4116 \<noteq> EncodeInt32 4106 \<and>
   (\<exists>vm'. Run 50 (NewVM collide_bytes) = Some (None, vm') \<and> stack vm' = [4116, 4116]) \<and>
   Compile 50 ''[ ] 4107'' = Some (Inr intact_bytes) \<and>
   take 5 (drop 10 intact_bytes) = OpPush # EncodeInt32 4107 \<and>
   (\<exists>vm'. Run 50 (NewVM intact_bytes) = Some (None, vm') \<and> stack vm' = [4116, 4107])"
proof -
  have a: "TempAddr (collide_quotations ! 0) = 4106"
    by (simp add: collide_quotations_def)
  have b: "take 5 (drop 10 collide_main) = OpPush # EncodeInt32 4106"
    by (simp add: collide_main_def EncodeInt32_def opcode_defs)
  have c: "take 5 (drop 10 collide_bytes) = OpPush # EncodeInt32 4116"
    by (simp add: collide_bytes_def EncodeInt32_def opcode_defs)
  have d: "EncodeInt32 4116 \<noteq> EncodeInt32 4106"
    by (simp add: EncodeInt32_def)
  have e: "take 5 (drop 10 intact_bytes) = OpPush # EncodeInt32 4107"
    by (simp add: intact_bytes_def EncodeInt32_def opcode_defs)
  show ?thesis
    using a b c d e collide_second_pass collide_Compile collide_Run intact_Compile intact_Run
    by blast
qed

subsection \<open>Negative hexadecimal literals\<close>





















section \<open>Properties of the read-eval-print loop\<close>

subsection \<open>A line that traps: \<open>0 /\<close> on the saved stack \<open>[7]\<close>\<close>

lemma div0_Tokenize: "Tokenize ''7 0 /'' = Inr div0_tokens"
  unfolding div0_tokens_def by code_simp

lemma div0_first_pass:
  "first_pass 50 0 8 (cstate div0_tokens 0 [23, 0, 0, 0, 0] [] 0) =
     ok (cstate div0_tokens 3 [23, 0, 0, 0, 0] [] 0)"
  by (simp add: cstate_def fuel_simps div0_tokens_def compile_defs opcode_defs cong: cbind_weak_cong)

lemma div0_second_pass:
  "second_pass 50 (cstate div0_tokens 0 [23, 0, 0, 16, 5] [] 0) =
     ok (cstate div0_tokens 3 div0_main [] 0)"
  by (simp add: cstate_def div0_main_def fuel_simps div0_tokens_def
        compile_defs opcode_defs cong: cbind_weak_cong)

lemma div0_finish: "finish (cstate div0_tokens 3 div0_main [] 0) = div0_bytes"
  apply (simp add: cstate_def div0_main_def finish_def emit_def
           currentAddress_def Let_def place_loop.simps cong: let_weak_cong)
  apply (simp add: patchRange.simps patchAt_def BigEndianUint32_def put4_def EncodeInt32_def
           opcode_defs cong: let_weak_cong)
  apply (simp add: patch_quotations.simps patch32_def put4_def EncodeInt32_def currentAddress_def
           div0_bytes_def)
  done

lemma div0_compile: "compile 50 (NewCompiler div0_tokens) = ok div0_bytes"
proof -
  have n: "length div0_tokens = 4" by (simp add: div0_tokens_def)
  show ?thesis
    unfolding compile_def Let_def compile_start
    by (simp add: cstate_simps n div0_first_pass compile_main_start div0_second_pass
          div0_finish cbind_def ok_def NewCompiler_def)
qed

lemma div0_Compile: "Compile 50 ''7 0 /'' = Some (Inr div0_bytes)"
  by (simp add: Compile_def div0_Tokenize div0_compile [unfolded ok_def])

lemma div0_Run:
  "\<exists>vm'. Run 50 (NewVM div0_bytes) = Some (Some (ErrorAtPC 4112 (Failed ''div'' DivisionByZero)), vm') \<and>
     stdout vm' = []"
  by (simp add: NewVM_def ReservedMemorySize_def UserMemoryOffset_def div0_bytes_def
        Run_num Run_trap_num Run_stop step_defs Div_def)

lemma div0_source: "repl_source repl_seven ''0 /'' = ''7 0 /''"
  by (simp add: repl_source_def repl_seven_def FormatInt_def decimal_nat.simps char_of_def bit_Suc_0_iff)

subsection \<open>A line that does not compile: \<open>]\<close> on the saved stack \<open>[7]\<close>\<close>

lemma rbracket_Tokenize: "Tokenize ''7 ]'' = Inr rbracket_tokens"
  unfolding rbracket_tokens_def by code_simp

lemma rbracket_first_pass:
  "first_pass 50 0 6 (cstate rbracket_tokens 0 [23, 0, 0, 0, 0] [] 0) =
     ok (cstate rbracket_tokens 2 [23, 0, 0, 0, 0] [] 0)"
  by (simp add: cstate_def fuel_simps rbracket_tokens_def compile_defs opcode_defs cong: cbind_weak_cong)

lemma rbracket_second_pass:
  "second_pass 50 (cstate rbracket_tokens 0 [23, 0, 0, 16, 5] [] 0) = fail (UnexpectedRBracket 1)"
  by (simp add: cstate_def fuel_simps rbracket_tokens_def compile_defs opcode_defs cong: cbind_weak_cong)

lemma rbracket_Compile: "Compile 50 ''7 ]'' = Some (Inl (UnexpectedRBracket 1))"
proof -
  have n: "length rbracket_tokens = 3" by (simp add: rbracket_tokens_def)
  have "compile 50 (NewCompiler rbracket_tokens) = fail (UnexpectedRBracket 1)"
    unfolding compile_def Let_def compile_start
    by (simp add: cstate_simps n rbracket_first_pass compile_main_start rbracket_second_pass
          cbind_def ok_def fail_def NewCompiler_def)
  then show ?thesis
    by (simp add: Compile_def rbracket_Tokenize fail_def)
qed

lemma rbracket_source: "repl_source repl_seven '']'' = ''7 ]''"
  by (simp add: repl_source_def repl_seven_def FormatInt_def decimal_nat.simps char_of_def bit_Suc_0_iff)

subsection \<open>The error paths of \<open>evaluate\<close>\<close>

lemma evaluate_compile_error:
  "\<not> HasPrefix ln ''@'' \<Longrightarrow> Compile fuel (repl_source r ln) = Some (Inl e) \<Longrightarrow> e \<noteq> CompilerPanic \<Longrightarrow>
   evaluate fuel r ln = Some ([], CompileError e, r)"
  by (simp add: evaluate_def)

lemma evaluate_runtime_error:
  "\<not> HasPrefix ln ''@'' \<Longrightarrow> Compile fuel (repl_source r ln) = Some (Inr prog) \<Longrightarrow>
   Run fuel (NewVM prog) = Some (Some e, machine) \<Longrightarrow> \<not> vm_panic e \<Longrightarrow>
   evaluate fuel r ln = Some (stdout machine, RuntimeError e, r)"
  by (simp add: evaluate_def)

lemma evaluate_error_state:
  assumes "evaluate fuel r ln = Some (out, rep, r')"
    and "(\<exists>e. rep = CompileError e) \<or> (\<exists>e. rep = RuntimeError e)"
  shows "r' = r \<and> \<not> HasPrefix ln ''@'' \<and>
         ((\<exists>e. rep = CompileError e \<and> Compile fuel (repl_source r ln) = Some (Inl e)) \<or>
          (\<exists>e prog machine. rep = RuntimeError e \<and> Compile fuel (repl_source r ln) = Some (Inr prog) \<and>
             Run fuel (NewVM prog) = Some (Some e, machine) \<and> out = stdout machine))"
  using assms
  by (auto simp add: evaluate_def Let_def split: if_splits option.splits sum.splits prod.splits)

text \<open>
  Claim C8. For a line that is not a definition: when \<open>Compile\<close> returns an error for the
  source built from the history, the saved stack and the line, \<open>evaluate\<close> reports that
  compile error and returns the state it was called with; when the source compiles and
  \<open>Run\<close> returns an error, \<open>evaluate\<close> reports that runtime error, after the output of the
  program, and returns the state it was called with. Conversely a report of a compile
  error or of a runtime error comes from one of these two cases only, with the state
  (history, saved stack, defined words) unchanged. A Go panic is not an error report: it
  ends the process.
\<close>

theorem repl_error_keeps_state:
  "(\<not> HasPrefix ln ''@'' \<and> Compile fuel (repl_source r ln) = Some (Inl e) \<and> e \<noteq> CompilerPanic \<longrightarrow>
      evaluate fuel r ln = Some ([], CompileError e, r)) \<and>
   (\<not> HasPrefix ln ''@'' \<and> Compile fuel (repl_source r ln) = Some (Inr prog) \<and>
    Run fuel (NewVM prog) = Some (Some e', machine) \<and> \<not> vm_panic e' \<longrightarrow>
      evaluate fuel r ln = Some (stdout machine, RuntimeError e', r)) \<and>
   (evaluate fuel r ln = Some (out, rep, r') \<and>
    ((\<exists>e. rep = CompileError e) \<or> (\<exists>e. rep = RuntimeError e)) \<longrightarrow>
      r' = r \<and> \<not> HasPrefix ln ''@'' \<and>
      ((\<exists>e. rep = CompileError e \<and> Compile fuel (repl_source r ln) = Some (Inl e)) \<or>
       (\<exists>e prog machine. rep = RuntimeError e \<and> Compile fuel (repl_source r ln) = Some (Inr prog) \<and>
          Run fuel (NewVM prog) = Some (Some e, machine) \<and> out = stdout machine)))"
proof -
  have a: "\<not> HasPrefix ln ''@'' \<and> Compile fuel (repl_source r ln) = Some (Inl e) \<and> e \<noteq> CompilerPanic \<longrightarrow>
      evaluate fuel r ln = Some ([], CompileError e, r)"
    by (simp add: evaluate_compile_error)
  have b: "\<not> HasPrefix ln ''@'' \<and> Compile fuel (repl_source r ln) = Some (Inr prog) \<and>
    Run fuel (NewVM prog) = Some (Some e', machine) \<and> \<not> vm_panic e' \<longrightarrow>
      evaluate fuel r ln = Some (stdout machine, RuntimeError e', r)"
    by (simp add: evaluate_runtime_error)
  have c: "evaluate fuel r ln = Some (out, rep, r') \<and>
    ((\<exists>e. rep = CompileError e) \<or> (\<exists>e. rep = RuntimeError e)) \<longrightarrow>
      r' = r \<and> \<not> HasPrefix ln ''@'' \<and>
      ((\<exists>e. rep = CompileError e \<and> Compile fuel (repl_source r ln) = Some (Inl e)) \<or>
       (\<exists>e prog machine. rep = RuntimeError e \<and> Compile fuel (repl_source r ln) = Some (Inr prog) \<and>
          Run fuel (NewVM prog) = Some (Some e, machine) \<and> out = stdout machine))"
  proof
    assume h: "evaluate fuel r ln = Some (out, rep, r') \<and>
      ((\<exists>e. rep = CompileError e) \<or> (\<exists>e. rep = RuntimeError e))"
    show "r' = r \<and> \<not> HasPrefix ln ''@'' \<and>
      ((\<exists>e. rep = CompileError e \<and> Compile fuel (repl_source r ln) = Some (Inl e)) \<or>
       (\<exists>e prog machine. rep = RuntimeError e \<and> Compile fuel (repl_source r ln) = Some (Inr prog) \<and>
          Run fuel (NewVM prog) = Some (Some e, machine) \<and> out = stdout machine))"
      by (rule evaluate_error_state [OF conjunct1 [OF h] conjunct2 [OF h]])
  qed
  show ?thesis by (rule conjI [OF a conjI [OF b c]])
qed

theorem repl_error_keeps_state_witness:
  "Compile 50 (repl_source repl_seven '']'') = Some (Inl (UnexpectedRBracket 1)) \<and>
   evaluate 50 repl_seven '']'' = Some ([], CompileError (UnexpectedRBracket 1), repl_seven) \<and>
   Compile 50 (repl_source repl_seven ''0 /'') = Some (Inr div0_bytes) \<and>
   (\<exists>machine. Run 50 (NewVM div0_bytes) =
        Some (Some (ErrorAtPC 4112 (Failed ''div'' DivisionByZero)), machine) \<and>
      evaluate 50 repl_seven ''0 /'' =
        Some (stdout machine, RuntimeError (ErrorAtPC 4112 (Failed ''div'' DivisionByZero)), repl_seven))"
proof -
  have c1: "Compile 50 (repl_source repl_seven '']'') = Some (Inl (UnexpectedRBracket 1))"
    by (simp add: rbracket_source rbracket_Compile)
  have p1: "\<not> HasPrefix '']'' ''@''" by (simp add: HasPrefix_def)
  have e1: "evaluate 50 repl_seven '']'' = Some ([], CompileError (UnexpectedRBracket 1), repl_seven)"
    by (rule repl_error_keeps_state [THEN conjunct1, THEN mp]) (simp add: c1 p1)
  have c2: "Compile 50 (repl_source repl_seven ''0 /'') = Some (Inr div0_bytes)"
    by (simp add: div0_source div0_Compile)
  have p2: "\<not> HasPrefix ''0 /'' ''@''" by (simp add: HasPrefix_def)
  obtain machine where
    r: "Run 50 (NewVM div0_bytes) = Some (Some (ErrorAtPC 4112 (Failed ''div'' DivisionByZero)), machine)"
    using div0_Run by blast
  have np: "\<not> vm_panic (ErrorAtPC 4112 (Failed ''div'' DivisionByZero))" by simp
  have e2: "evaluate 50 repl_seven ''0 /'' =
      Some (stdout machine, RuntimeError (ErrorAtPC 4112 (Failed ''div'' DivisionByZero)), repl_seven)"
    by (rule repl_error_keeps_state [where prog = div0_bytes, THEN conjunct2, THEN conjunct1, THEN mp])
       (intro conjI p2 c2 r np)
  from r e2 have "\<exists>machine. Run 50 (NewVM div0_bytes) =
        Some (Some (ErrorAtPC 4112 (Failed ''div'' DivisionByZero)), machine) \<and>
      evaluate 50 repl_seven ''0 /'' =
        Some (stdout machine, RuntimeError (ErrorAtPC 4112 (Failed ''div'' DivisionByZero)), repl_seven)"
    by (intro exI [of _ machine] conjI)
  with c1 e1 c2 show ?thesis by (intro conjI)
qed

end
